theory Spec2Isabelle
  imports Complex_Main
begin

section \<open>Numbers\<close>

text \<open>
  The sources compute in IEEE double precision. A finite double is read as the
  real number it denotes (rounding of the elementary operations is not modelled);
  the three special values the code produces and tests for on purpose
  (\<open>INFINITY\<close>, \<open>-INFINITY\<close>, and the NaN of \<open>0.0 / 0.0\<close>) are values
  of their own, and the comparison operators follow IEEE: every ordered
  comparison with NaN is false.
\<close>

datatype double = NegInf | Fin real | PosInf | NaN

text \<open>\<open>a / b\<close> on two finite doubles; a zero divisor is taken as \<open>+0.0\<close>.\<close>

definition ddiv :: "real \<Rightarrow> real \<Rightarrow> double" where
  "ddiv a b =
     (if b \<noteq> 0 then Fin (a / b)
      else if a > 0 then PosInf
      else if a < 0 then NegInf
      else NaN)"

text \<open>\<open>x >= c\<close>, \<open>x <= c\<close>, \<open>x > c\<close> and \<open>x < c\<close> for a finite constant \<open>c\<close>.\<close>

fun dge :: "double \<Rightarrow> real \<Rightarrow> bool" where
  "dge (Fin x) c = (x \<ge> c)"
| "dge PosInf c = True"
| "dge NegInf c = False"
| "dge NaN c = False"

fun dle :: "double \<Rightarrow> real \<Rightarrow> bool" where
  "dle (Fin x) c = (x \<le> c)"
| "dle PosInf c = False"
| "dle NegInf c = True"
| "dle NaN c = False"

fun dgt :: "double \<Rightarrow> real \<Rightarrow> bool" where
  "dgt (Fin x) c = (x > c)"
| "dgt PosInf c = True"
| "dgt NegInf c = False"
| "dgt NaN c = False"

fun dlt :: "double \<Rightarrow> real \<Rightarrow> bool" where
  "dlt (Fin x) c = (x < c)"
| "dlt PosInf c = False"
| "dlt NegInf c = True"
| "dlt NaN c = False"

text \<open>\<open>isinf\<close> of the C library.\<close>

fun isinf :: "double \<Rightarrow> bool" where
  "isinf PosInf = True"
| "isinf NegInf = True"
| "isinf (Fin x) = False"
| "isinf NaN = False"

text \<open>\<open>acos\<close> of the C library: NaN outside \<open>[-1, 1]\<close>.\<close>

fun dacos :: "double \<Rightarrow> double" where
  "dacos (Fin x) = (if - 1 \<le> x \<and> x \<le> 1 then Fin (arccos x) else NaN)"
| "dacos PosInf = NaN"
| "dacos NegInf = NaN"
| "dacos NaN = NaN"

section \<open>Constants of SSAngle and SSTime\<close>

text \<open>
  Modelled from the spec: \<open>SSAngle::kPi\<close> and \<open>SSAngle::kTwoPi\<close> are declared in
  SSAngle.hpp, which is not among the sources; the spec reads them as \<open>\<pi>\<close> and
  \<open>2\<pi>\<close>.
\<close>

definition kPi :: real where
  "kPi = pi"

definition kTwoPi :: real where
  "kTwoPi = 2 * pi"

text \<open>
  Modelled from the spec: \<open>SSAngle::kDegPerRad\<close> is declared in SSAngle.hpp, which
  is not among the sources. It is the number of degrees in a radian: SSPlanet.cpp
  multiplies orbital angles held in radians by it to print them in degrees, and
  multiplies parsed degrees by \<open>kRadPerDeg\<close> to store radians.
\<close>

definition kDegPerRad :: real where
  "kDegPerRad = 180 / pi"

definition kRadPerDeg :: real where
  "kRadPerDeg = pi / 180"

text \<open>
  Modelled from the spec: \<open>SSTime::kSecondsPerDay\<close> and \<open>SSTime::kMinutesPerDay\<close>
  are declared in SSTime.hpp, which is not among the sources; the spec reads their
  reciprocals as one second and one minute of time, in days.
\<close>

definition kSecondsPerDay :: real where
  "kSecondsPerDay = 86400"

definition kMinutesPerDay :: real where
  "kMinutesPerDay = 1440"

text \<open>
  Modelled from the spec: \<open>SSAngle::modPi\<close> is defined in SSAngle.cpp, which is not
  among the sources; the spec has it reduce an angle into \<open>(-\<pi>, \<pi>]\<close> by whole
  turns.
\<close>

definition modPi :: "real \<Rightarrow> real" where
  "modPi x = x - kTwoPi * of_int \<lceil>(x - kPi) / kTwoPi\<rceil>"

section \<open>SSPlanet: illumination\<close>

text \<open>
  \<^verbatim>\<open>double SSPlanet::illumination ( double phase )
  { return 1.0 + cos ( phase ) / 2.0; }\<close>
  Division binds tighter than addition in C++.
\<close>

definition illumination :: "real \<Rightarrow> real" where
  "illumination phase = 1 + cos phase / 2"

section \<open>SSPlanet: the magnitude of an asteroid\<close>














section \<open>SSEvent: the closed-form solver\<close>

text \<open>
  \<^verbatim>\<open>double cosha = ( sin ( alt ) - sin ( dec ) * sin ( lat ) ) / ( cos ( dec ) * cos ( lat ) );
  if ( cosha >= 1.0 ) return 0.0;
  else if ( cosha <= -1.0 ) return SSAngle::kPi;
  else return acos ( cosha );\<close>
\<close>

definition cosHourAngle :: "real \<Rightarrow> real \<Rightarrow> real \<Rightarrow> double" where
  "cosHourAngle lat dec alt = ddiv (sin alt - sin dec * sin lat) (cos dec * cos lat)"

definition semiDiurnalArc :: "real \<Rightarrow> real \<Rightarrow> real \<Rightarrow> double" where
  "semiDiurnalArc lat dec alt =
     (let cosha = cosHourAngle lat dec alt
      in if dge cosha 1 then Fin 0
         else if dle cosha (- 1) then Fin kPi
         else dacos cosha)"

text \<open>
  The seven-argument \<open>riseTransitSet\<close>. \<open>SSTime::getSiderealTime\<close> (the local
  sidereal time at a Julian date and longitude) and the constant
  \<open>SSTime::kSiderealPerSolarDays\<close> are declared in SSTime.hpp, which is not among
  the sources: they are the parameters \<open>gst\<close> and \<open>ksid\<close>. \<open>sign\<close> is the C++
  \<open>int\<close>: \<open>-1\<close> rising, \<open>0\<close> transit, \<open>+1\<close> setting.
\<close>

definition riseTransitSet ::
  "(real \<Rightarrow> real \<Rightarrow> real) \<Rightarrow> real \<Rightarrow> real \<Rightarrow> real \<Rightarrow> real \<Rightarrow> int \<Rightarrow> real \<Rightarrow> real \<Rightarrow> real \<Rightarrow> double" where
  "riseTransitSet gst ksid time ra dec sign lon lat alt =
     (let ha = semiDiurnalArc lat dec alt
      in if ha = Fin kPi \<and> sign \<noteq> 0 then PosInf
         else if ha = Fin 0 then NegInf
         else (case ha of
                 Fin h \<Rightarrow>
                   (let lst = gst time lon;
                        theta = modPi (ra - lst + of_int sign * h)
                    in Fin (time + theta / kTwoPi / ksid))
               | _ \<Rightarrow> NaN))"

section \<open>SSEvent: the step of the satellite sweep\<close>

text \<open>
  \<^verbatim>\<open>if ( hor.lat > -1.0 * SSAngle::kDegPerRad )
      step = 1.0 / SSTime::kSecondsPerDay;
  else
      step = 1.0 / SSTime::kMinutesPerDay;\<close>
  \<open>hor.lat\<close> is the altitude in radians.
\<close>

definition sweepStep :: "real \<Rightarrow> real" where
  "sweepStep lat =
     (if lat > - 1 * kDegPerRad then 1 / kSecondsPerDay else 1 / kMinutesPerDay)"

section \<open>SSEvent: observer context, object and passes\<close>

text \<open>
  \<open>SSSpherical\<close> of SSVector.hpp: longitude, latitude and radius (RA/Dec, Az/Alt).
\<close>

record SSSpherical =
  slon :: real
  slat :: real
  srad :: real

datatype SSFrame = kFundamental | kEquatorial | kHorizon

text \<open>
  The observer context \<open>SSCoordinates\<close>: the fields the solvers read and write are
  its time (\<open>getTime\<close>, \<open>setTime\<close>) and its geographic location
  (\<open>getLocation\<close>); the matrices \<open>setTime\<close> rebuilds are functions of these.
\<close>

record SSCoordinates =
  ctime :: real
  cloc :: SSSpherical

definition setTime :: "real \<Rightarrow> SSCoordinates \<Rightarrow> SSCoordinates" where
  "setTime t coords = coords\<lparr>ctime := t\<rparr>"

text \<open>
  The collaborators of SSEvent.cpp that are not among the sources, for one fixed
  object \<open>pObj\<close>: \<open>computeEphemeris\<close> is the ephemeris state that
  \<open>pObj->computeEphemeris ( coords )\<close> stores in the object (it overwrites position,
  velocity, direction, distance and magnitude from the context and the object's
  orbit), \<open>getDirection\<close> reads the apparent direction out of that state,
  \<open>transform\<close> is \<open>coords.transform ( from, to, direction )\<close>,
  \<open>getSiderealTime\<close> is \<open>time.getSiderealTime ( lon )\<close>, \<open>getLocalMidnight\<close>
  is \<open>today.getLocalMidnight()\<close> and \<open>kSiderealPerSolarDays\<close> the constant of
  SSTime.
\<close>

record ('e, 'd) world =
  computeEphemeris :: "SSCoordinates \<Rightarrow> 'e"
  getDirection :: "'e \<Rightarrow> 'd"
  transform :: "SSCoordinates \<Rightarrow> SSFrame \<Rightarrow> SSFrame \<Rightarrow> 'd \<Rightarrow> SSSpherical"
  getSiderealTime :: "real \<Rightarrow> real \<Rightarrow> real"
  getLocalMidnight :: "real \<Rightarrow> real"
  kSiderealPerSolarDays :: real

text \<open>An event of a pass and the pass; \<open>SSPass pass = { 0 }\<close> is \<open>zeroPass\<close>.\<close>

record SSPassEvent =
  evtime :: double
  evazm :: real
  evalt :: real

record SSPass =
  rising :: SSPassEvent
  transit :: SSPassEvent
  setting :: SSPassEvent

definition zeroEvent :: SSPassEvent where
  "zeroEvent = \<lparr>evtime = Fin 0, evazm = 0, evalt = 0\<rparr>"

definition zeroPass :: SSPass where
  "zeroPass = \<lparr>rising = zeroEvent, transit = zeroEvent, setting = zeroEvent\<rparr>"

definition kRise :: int where
  "kRise = - 1"

definition kTransit :: int where
  "kTransit = 0"

definition kSet :: int where
  "kSet = 1"

section \<open>SSEvent: the iterative solvers\<close>

text \<open>
  The wrapper \<open>riseTransitSet ( time, coords, pObj, sign, alt )\<close>: location from the
  context, RA and Dec from the object's direction.
\<close>

definition riseTransitSetObj ::
  "('e, 'd) world \<Rightarrow> real \<Rightarrow> SSCoordinates \<Rightarrow> 'e \<Rightarrow> int \<Rightarrow> real \<Rightarrow> double" where
  "riseTransitSetObj W time coords obj sign alt =
     (let loc = cloc coords;
          equ = transform W coords kFundamental kEquatorial (getDirection W obj)
      in riseTransitSet (getSiderealTime W) (kSiderealPerSolarDays W)
           time (slon equ) (slat equ) sign (slon loc) (slat loc) alt)"

definition imax :: nat where
  "imax = 10"

definition precision :: real where
  "precision = 1 / kSecondsPerDay"

text \<open>
  \<open>fabs ( time - lasttime ) > precision\<close> for the new estimate \<open>time\<close> and the
  finite \<open>lasttime\<close>: an infinite estimate is infinitely far, and the comparison
  is false on NaN.
\<close>

fun farFrom :: "double \<Rightarrow> real \<Rightarrow> bool" where
  "farFrom (Fin t) lasttime = (\<bar>t - lasttime\<bar> > precision)"
| "farFrom PosInf lasttime = True"
| "farFrom NegInf lasttime = True"
| "farFrom NaN lasttime = False"

text \<open>
  The do-while loop of \<open>riseTransitSetSearch\<close>:
  \<^verbatim>\<open>do {
      lasttime = time;
      coords.setTime ( time );
      pObj->computeEphemeris ( coords );
      time = riseTransitSet ( time, coords, pObj, sign, alt );
      i++;
  } while ( fabs ( time - lasttime ) > precision && ! isinf ( time ) && i < imax );\<close>
  The state is the current estimate, the context, the object's ephemeris state
  and the counter \<open>i\<close>; the result keeps the counter next to what the function
  returns and leaves behind. When the loop condition holds the estimate is
  finite, so the last case of the inner \<open>case\<close> is never taken.
\<close>

function searchLoop ::
  "('e, 'd) world \<Rightarrow> int \<Rightarrow> real \<Rightarrow> real \<Rightarrow> SSCoordinates \<Rightarrow> 'e \<Rightarrow> nat
   \<Rightarrow> double \<times> SSCoordinates \<times> 'e \<times> nat" where
  "searchLoop W sign alt time coords obj i =
     (let lasttime = time;
          coords1 = setTime time coords;
          obj1 = computeEphemeris W coords1;
          time1 = riseTransitSetObj W time coords1 obj1 sign alt;
          i1 = i + 1
      in if farFrom time1 lasttime \<and> \<not> isinf time1 \<and> i1 < imax
         then (case time1 of
                 Fin t \<Rightarrow> searchLoop W sign alt t coords1 obj1 i1
               | _ \<Rightarrow> (time1, coords1, obj1, i1))
         else (time1, coords1, obj1, i1))"
  by pat_completeness auto
termination
  by (relation "measure (\<lambda>(W, sign, alt, time, coords, obj, i). imax - i)") auto

declare searchLoop.simps [simp del]

definition riseTransitSetSearch ::
  "('e, 'd) world \<Rightarrow> real \<Rightarrow> SSCoordinates \<Rightarrow> 'e \<Rightarrow> int \<Rightarrow> real
   \<Rightarrow> double \<times> SSCoordinates \<times> 'e" where
  "riseTransitSetSearch W time coords obj sign alt =
     (case searchLoop W sign alt time coords obj 0 of
        (time1, coords1, obj1, i1) \<Rightarrow> (time1, coords1, obj1))"

text \<open>
  \<open>riseTransitSetSearchDay\<close>: search from local noon, once more from the noon of
  the previous or the next day, then the test against the bounds of the day.
\<close>

definition riseTransitSetSearchDay ::
  "('e, 'd) world \<Rightarrow> real \<Rightarrow> SSCoordinates \<Rightarrow> 'e \<Rightarrow> int \<Rightarrow> real
   \<Rightarrow> double \<times> SSCoordinates \<times> 'e" where
  "riseTransitSetSearchDay W today coords obj sign alt =
     (let start = getLocalMidnight W today;
          end = start + 1
      in case riseTransitSetSearch W (start + 0.5) coords obj sign alt of
           (time1, coords1, obj1) \<Rightarrow>
             (case (if dgt time1 end
                    then riseTransitSetSearch W (start - 0.5) coords1 obj1 sign alt
                    else if dlt time1 start
                    then riseTransitSetSearch W (end + 0.5) coords1 obj1 sign alt
                    else (time1, coords1, obj1)) of
                (time2, coords2, obj2) \<Rightarrow>
                  (if dgt time2 end \<or> dlt time2 start
                   then (if sign = - 1 then NegInf else PosInf, coords2, obj2)
                   else (time2, coords2, obj2))))"

section \<open>SSEvent: the circumstances of a pass on a local day\<close>

text \<open>
  After each of the three searches of \<open>riseTransitSet ( today, coords, pObj, alt )\<close>:
  \<^verbatim>\<open>pass.rising.time = riseTransitSetSearchDay ( today, coords, pObj, kRise, alt );
  if ( ! isinf ( pass.rising.time ) )
  {
      hor = coords.transform ( kFundamental, kHorizon, pObj->getDirection() );
      pass.rising.azm = hor.lon;
      pass.rising.alt = hor.lat;
  }\<close>
\<close>

definition recordEvent ::
  "('e, 'd) world \<Rightarrow> double \<Rightarrow> SSCoordinates \<Rightarrow> 'e \<Rightarrow> SSPassEvent \<Rightarrow> SSPassEvent" where
  "recordEvent W t coords obj ev =
     (if \<not> isinf t
      then (let hor = transform W coords kFundamental kHorizon (getDirection W obj)
            in \<lparr>evtime = t, evazm = slon hor, evalt = slat hor\<rparr>)
      else ev\<lparr>evtime := t\<rparr>)"

definition riseTransitSetPass ::
  "('e, 'd) world \<Rightarrow> real \<Rightarrow> SSCoordinates \<Rightarrow> 'e \<Rightarrow> real \<Rightarrow> SSPass \<times> SSCoordinates \<times> 'e" where
  "riseTransitSetPass W today coords obj alt =
     (let savetime = ctime coords;
          pass = zeroPass
      in case riseTransitSetSearchDay W today coords obj kRise alt of
           (t1, coords1, obj1) \<Rightarrow>
      let pass1 = pass\<lparr>rising := recordEvent W t1 coords1 obj1 (rising pass)\<rparr>
      in case riseTransitSetSearchDay W today coords1 obj1 kTransit 0 of
           (t2, coords2, obj2) \<Rightarrow>
      let pass2 = pass1\<lparr>transit := recordEvent W t2 coords2 obj2 (transit pass1)\<rparr>
      in case riseTransitSetSearchDay W today coords2 obj2 kSet alt of
           (t3, coords3, obj3) \<Rightarrow>
      let pass3 = pass2\<lparr>setting := recordEvent W t3 coords3 obj3 (setting pass2)\<rparr>;
          coords4 = setTime savetime coords3;
          obj4 = computeEphemeris W coords4
      in (pass3, coords4, obj4))"

section \<open>SSEvent: satellite passes\<close>

text \<open>
  The body of the sweep under \<open>if ( time > start )\<close>: a rising crossing, the
  running peak, a setting crossing that appends the pass and resets the peak.
  The state is \<open>pass\<close>, \<open>maxAlt\<close> and the vector \<open>passes\<close>.
\<close>

definition sweepEvents ::
  "real \<Rightarrow> real \<Rightarrow> real \<Rightarrow> real \<Rightarrow> real \<Rightarrow> SSPass \<times> real \<times> SSPass list
   \<Rightarrow> SSPass \<times> real \<times> SSPass list" where
  "sweepEvents minAlt time azm alt oldAlt st =
     (case st of (pass, maxAlt, passes) \<Rightarrow>
        let pass1 = (if alt > minAlt \<and> oldAlt < minAlt
                     then pass\<lparr>rising := \<lparr>evtime = Fin time, evazm = azm, evalt = alt\<rparr>\<rparr>
                     else pass);
            pass2 = (if alt > maxAlt
                     then pass1\<lparr>transit := \<lparr>evtime = Fin time, evazm = azm, evalt = alt\<rparr>\<rparr>
                     else pass1);
            maxAlt2 = (if alt > maxAlt then alt else maxAlt)
        in if oldAlt > minAlt \<and> alt < minAlt
           then (let pass3 = pass2\<lparr>setting := \<lparr>evtime = Fin time, evazm = azm, evalt = alt\<rparr>\<rparr>
                 in (pass3, 0, passes @ [pass3]))
           else (pass2, maxAlt2, passes))"

text \<open>
  The satellite's horizon coordinates at a sample time, as the head of the loop
  body computes them: \<open>setTime\<close>, \<open>computeEphemeris\<close>, \<open>transform\<close>.
\<close>

definition horizonAt :: "('e, 'd) world \<Rightarrow> SSCoordinates \<Rightarrow> real \<Rightarrow> SSSpherical" where
  "horizonAt W coords time =
     (let coords1 = setTime time coords;
          obj1 = computeEphemeris W coords1
      in transform W coords1 kFundamental kHorizon (getDirection W obj1))"

text \<open>
  \<open>for ( time = start; time <= stop; time += step )\<close> with the loop variables
  \<open>coords\<close>, the satellite's ephemeris state, \<open>pass\<close>, \<open>maxAlt\<close>, \<open>oldAlt\<close>
  and \<open>passes\<close>. Start and stop are finite Julian dates.
\<close>

function sweep ::
  "('e, 'd) world \<Rightarrow> real \<Rightarrow> real \<Rightarrow> real \<Rightarrow> real \<Rightarrow> SSCoordinates \<Rightarrow> 'e
   \<Rightarrow> SSPass \<times> real \<times> SSPass list \<Rightarrow> real
   \<Rightarrow> SSCoordinates \<times> 'e \<times> SSPass list" where
  "sweep W start stop minAlt time coords obj st oldAlt =
     (if time \<le> stop
      then (let coords1 = setTime time coords;
                obj1 = computeEphemeris W coords1;
                hor = transform W coords1 kFundamental kHorizon (getDirection W obj1);
                azm = slon hor;
                alt = slat hor;
                step = sweepStep (slat hor);
                st1 = (if time > start then sweepEvents minAlt time azm alt oldAlt st else st)
            in sweep W start stop minAlt (time + step) coords1 obj1 st1 alt)
      else (coords, obj, snd (snd st)))"
  by pat_completeness auto
termination
proof (relation "measure (\<lambda>(W, start, stop, minAlt, time, coords, obj, st, oldAlt).
                   if time \<le> stop then nat \<lfloor>(stop - time) * 86400\<rfloor> + 1 else 0)")
  show "wf (measure (\<lambda>(W :: ('e, 'd) world, start :: real, stop :: real, minAlt :: real,
                       time :: real, coords :: SSCoordinates, obj :: 'e,
                       st :: SSPass \<times> real \<times> SSPass list, oldAlt :: real).
                   if time \<le> stop then nat \<lfloor>(stop - time) * 86400\<rfloor> + 1 else 0))"
    by simp
next
  fix W :: "('e, 'd) world" and start stop minAlt time :: real and coords :: SSCoordinates
    and obj :: 'e and st :: "SSPass \<times> real \<times> SSPass list" and oldAlt :: real
    and coords1 obj1 hor azm alt step st1
  assume le: "time \<le> stop"
    and hor: "hor = transform W coords1 kFundamental kHorizon (getDirection W obj1)"
    and step: "step = sweepStep (slat hor)"
  have s: "1 / 86400 \<le> step"
    unfolding step sweepStep_def kSecondsPerDay_def kMinutesPerDay_def by simp
  show "((W, start, stop, minAlt, time + step, coords1, obj1, st1, alt),
         (W, start, stop, minAlt, time, coords, obj, st, oldAlt))
        \<in> measure (\<lambda>(W, start, stop, minAlt, time, coords, obj, st, oldAlt).
                   if time \<le> stop then nat \<lfloor>(stop - time) * 86400\<rfloor> + 1 else 0)"
  proof (cases "time + step \<le> stop")
    case False
    then show ?thesis using le by simp
  next
    case True
    have "(stop - (time + step)) * 86400 \<le> (stop - time) * 86400 - 1"
      using s by (simp add: algebra_simps)
    then have "\<lfloor>(stop - (time + step)) * 86400\<rfloor> \<le> \<lfloor>(stop - time) * 86400 - 1\<rfloor>"
      by (rule floor_mono)
    then have a: "\<lfloor>(stop - (time + step)) * 86400\<rfloor> \<le> \<lfloor>(stop - time) * 86400\<rfloor> - 1"
      by simp
    have "0 \<le> \<lfloor>(stop - (time + step)) * 86400\<rfloor>"
      using True by simp
    with a have "nat \<lfloor>(stop - (time + step)) * 86400\<rfloor> < nat \<lfloor>(stop - time) * 86400\<rfloor>"
      by linarith
    then show ?thesis
      using le True by (simp del: floor_less_cancel)
  qed
qed

declare sweep.simps [simp del]

text \<open>
  \<open>findSatellitePasses\<close>: the sweep from \<open>start\<close>, then the context's time is
  set back and the ephemeris recomputed; the result is the number of passes, with
  the vector and what is left in the context and the object.
\<close>

definition findSatellitePasses ::
  "('e, 'd) world \<Rightarrow> SSCoordinates \<Rightarrow> 'e \<Rightarrow> real \<Rightarrow> real \<Rightarrow> real \<Rightarrow> SSPass list
   \<Rightarrow> int \<times> SSPass list \<times> SSCoordinates \<times> 'e" where
  "findSatellitePasses W coords obj start stop minAlt passes =
     (let savetime = ctime coords
      in case sweep W start stop minAlt start coords obj (zeroPass, 0, passes) 0 of
           (coords1, obj1, passes1) \<Rightarrow>
             (let coords2 = setTime savetime coords1;
                  obj2 = computeEphemeris W coords2
              in (int (length passes1), passes1, coords2, obj2)))"

section \<open>What a recorded pass looks like\<close>

text \<open>The altitude the sweep reads at a sample time.\<close>

definition altitudeAt :: "('e, 'd) world \<Rightarrow> SSCoordinates \<Rightarrow> real \<Rightarrow> real" where
  "altitudeAt W coords time = slat (horizonAt W coords time)"

text \<open>
  The sample times of the sweep: it starts at \<open>start\<close> and goes on by the step
  chosen from the altitude \<open>A\<close> of the sample; the samples taken are those up to
  \<open>stop\<close>.
\<close>

primrec sampleTime :: "(real \<Rightarrow> real) \<Rightarrow> real \<Rightarrow> nat \<Rightarrow> real" where
  "sampleTime A start 0 = start"
| "sampleTime A start (Suc n) = sampleTime A start n + sweepStep (A (sampleTime A start n))"

text \<open>
  A pass as the sweep records it when it sees the whole of it. Its three events
  are at the samples \<open>j\<close>, \<open>m\<close> and \<open>k\<close> with \<open>0 < j \<le> m < k\<close>, the last one up
  to \<open>stop\<close>, so rising is no later than transit and transit is before setting;
  the recorded altitudes are the altitudes \<open>A\<close> of those samples; the sample
  before the rising one and the setting sample are below the threshold, the
  rising sample is above it and the transit sample at least as high as the
  rising one.
\<close>

definition goodPass :: "(real \<Rightarrow> real) \<Rightarrow> real \<Rightarrow> real \<Rightarrow> real \<Rightarrow> SSPass \<Rightarrow> bool" where
  "goodPass A start stop minAlt p =
     (\<exists>j m k. 0 < j \<and> j \<le> m \<and> m < k \<and> sampleTime A start k \<le> stop
        \<and> evtime (rising p) = Fin (sampleTime A start j)
        \<and> evtime (transit p) = Fin (sampleTime A start m)
        \<and> evtime (setting p) = Fin (sampleTime A start k)
        \<and> start < sampleTime A start j
        \<and> sampleTime A start j \<le> sampleTime A start m
        \<and> sampleTime A start m < sampleTime A start k
        \<and> evalt (rising p) = A (sampleTime A start j)
        \<and> evalt (transit p) = A (sampleTime A start m)
        \<and> evalt (setting p) = A (sampleTime A start k)
        \<and> A (sampleTime A start (j - 1)) < minAlt
        \<and> A (sampleTime A start k) < minAlt
        \<and> minAlt < A (sampleTime A start j)
        \<and> A (sampleTime A start j) \<le> A (sampleTime A start m))"

text \<open>
  A pass that stays at or below altitude \<open>0\<close>, the value the running peak starts
  from and is reset to: its rising and setting events are as above, but no sample
  of it raises the peak, so its transit event is not one of its samples. The
  threshold of such a pass is negative.
\<close>

definition lowPass :: "(real \<Rightarrow> real) \<Rightarrow> real \<Rightarrow> real \<Rightarrow> real \<Rightarrow> SSPass \<Rightarrow> bool" where
  "lowPass A start stop minAlt p =
     (\<exists>j k. 0 < j \<and> j < k \<and> sampleTime A start k \<le> stop
        \<and> evtime (rising p) = Fin (sampleTime A start j)
        \<and> evtime (setting p) = Fin (sampleTime A start k)
        \<and> start < sampleTime A start j
        \<and> sampleTime A start j < sampleTime A start k
        \<and> evalt (rising p) = A (sampleTime A start j)
        \<and> evalt (setting p) = A (sampleTime A start k)
        \<and> A (sampleTime A start (j - 1)) < minAlt
        \<and> A (sampleTime A start k) < minAlt
        \<and> minAlt < A (sampleTime A start j)
        \<and> (\<forall>i. j \<le> i \<and> i < k \<longrightarrow> A (sampleTime A start i) \<le> 0))"

text \<open>
  The state of the sweep at the head of the loop when it is about to take the
  sample \<open>n > 0\<close>: \<open>oldAlt\<close> is the altitude of the sample before; the passes
  appended so far are as above; while the satellite is below the threshold the
  running peak is not above the larger of \<open>0\<close> and the threshold; while it is
  above, the pass being built has its rising sample \<open>j\<close>, and either a transit
  sample at which the running peak was taken, or a running peak that is not
  positive and that no sample of the pass has exceeded.
\<close>

definition sweepInv ::
  "(real \<Rightarrow> real) \<Rightarrow> real \<Rightarrow> real \<Rightarrow> real \<Rightarrow> nat \<Rightarrow> SSPass \<times> real \<times> SSPass list \<Rightarrow> real \<Rightarrow> bool" where
  "sweepInv A start stop minAlt n st oldAlt =
     (case st of (pass, maxAlt, passes) \<Rightarrow>
        0 < n \<and> oldAlt = A (sampleTime A start (n - 1))
        \<and> (\<forall>p \<in> set passes. goodPass A start stop minAlt p \<or> lowPass A start stop minAlt p)
        \<and> (oldAlt < minAlt \<longrightarrow> maxAlt \<le> max 0 minAlt)
        \<and> (minAlt < oldAlt \<longrightarrow>
             (\<exists>j. 0 < j \<and> j < n
                \<and> evtime (rising pass) = Fin (sampleTime A start j)
                \<and> evalt (rising pass) = A (sampleTime A start j)
                \<and> A (sampleTime A start (j - 1)) < minAlt
                \<and> minAlt < A (sampleTime A start j)
                \<and> ((\<exists>m. j \<le> m \<and> m < n
                       \<and> evtime (transit pass) = Fin (sampleTime A start m)
                       \<and> evalt (transit pass) = A (sampleTime A start m)
                       \<and> A (sampleTime A start j) \<le> A (sampleTime A start m)
                       \<and> maxAlt = A (sampleTime A start m))
                    \<or> (maxAlt \<le> 0
                        \<and> (\<forall>i. j \<le> i \<and> i < n \<longrightarrow> A (sampleTime A start i) \<le> maxAlt))))))"

section \<open>Environments for the concrete instances\<close>

text \<open>
  A sidereal clock that turns uniformly at the mean sidereal rate, used where a
  statement below is instantiated at concrete arguments.
\<close>

definition testRate :: real where
  "testRate = 1.00273790934"

definition testSiderealTime :: "real \<Rightarrow> real \<Rightarrow> real" where
  "testSiderealTime t lon = kTwoPi * testRate * t + lon"

text \<open>
  An observer at longitude and latitude \<open>0\<close> whose local days begin at the whole
  Julian dates, and an object on the celestial equator whose right ascension and
  altitude are given as functions of the time its ephemeris was computed for.
\<close>

definition testMidnight :: "real \<Rightarrow> real" where
  "testMidnight today = of_int \<lfloor>today\<rfloor>"

definition testTransform ::
  "(real \<Rightarrow> real) \<Rightarrow> (real \<Rightarrow> real) \<Rightarrow> SSCoordinates \<Rightarrow> SSFrame \<Rightarrow> SSFrame \<Rightarrow> real \<Rightarrow> SSSpherical" where
  "testTransform ra alt coords from to d =
     (if to = kHorizon then \<lparr>slon = 0, slat = alt d, srad = 1\<rparr>
      else \<lparr>slon = ra d, slat = 0, srad = 1\<rparr>)"

definition testWorld :: "(real \<Rightarrow> real) \<Rightarrow> (real \<Rightarrow> real) \<Rightarrow> (real, real) world" where
  "testWorld ra alt =
     \<lparr>computeEphemeris = ctime,
      getDirection = (\<lambda>e. e),
      transform = testTransform ra alt,
      getSiderealTime = testSiderealTime,
      getLocalMidnight = testMidnight,
      kSiderealPerSolarDays = testRate\<rparr>"

definition testCoords :: SSCoordinates where
  "testCoords = \<lparr>ctime = 0, cloc = \<lparr>slon = 0, slat = 0, srad = 1\<rparr>\<rparr>"

text \<open>
  A star at right ascension \<open>0\<close>; an object whose right ascension is one quarter
  of a sidereal turn ahead of the meridian until \<open>t = 3/4\<close> and on the meridian of
  \<open>t = 1\<close> afterwards; an object that stays on the horizon.
\<close>

definition fixedStar :: "real \<Rightarrow> real" where
  "fixedStar t = 0"

definition steppingObject :: "real \<Rightarrow> real" where
  "steppingObject t = kTwoPi * testRate * (if t < 3 / 4 then 3 / 4 else 1)"

definition levelAltitude :: "real \<Rightarrow> real" where
  "levelAltitude t = 0"

text \<open>
  Altitudes for sweeps that start at \<open>0\<close> and take a sample every second, with
  the pass each sweep records. A pass that grazes the threshold \<open>1/5\<close> radian,
  above it at the sample one second after \<open>0\<close> only; a pass already under way at
  \<open>0\<close>; a pass that comes down through a sample exactly at the threshold \<open>1/5\<close>,
  followed by a lower one; and a pass over the threshold \<open>-1/5\<close> that stays below
  altitude \<open>0\<close>.
\<close>

definition grazingPass :: "real \<Rightarrow> real" where
  "grazingPass t = (if t = 1 / 86400 then 200001 / 1000000 else 19999 / 100000)"

definition grazingRecord :: SSPass where
  "grazingRecord =
     \<lparr>rising = \<lparr>evtime = Fin (1 / 86400), evazm = 0, evalt = 200001 / 1000000\<rparr>,
      transit = \<lparr>evtime = Fin (1 / 86400), evazm = 0, evalt = 200001 / 1000000\<rparr>,
      setting = \<lparr>evtime = Fin (2 / 86400), evazm = 0, evalt = 19999 / 100000\<rparr>\<rparr>"

definition underwayPass :: "real \<Rightarrow> real" where
  "underwayPass t = (if t = 0 then 20001 / 100000 else 19999 / 100000)"

definition underwayRecord :: SSPass where
  "underwayRecord =
     \<lparr>rising = zeroEvent,
      transit = \<lparr>evtime = Fin (1 / 86400), evazm = 0, evalt = 19999 / 100000\<rparr>,
      setting = \<lparr>evtime = Fin (1 / 86400), evazm = 0, evalt = 19999 / 100000\<rparr>\<rparr>"

definition touchingPass :: "real \<Rightarrow> real" where
  "touchingPass t =
     (if t = 1 / 86400 then 2 / 5
      else if t = 2 / 86400 then 1 / 5
      else if t = 4 / 86400 then 3 / 10
      else 1 / 10)"

definition touchingRecord :: SSPass where
  "touchingRecord =
     \<lparr>rising = \<lparr>evtime = Fin (4 / 86400), evazm = 0, evalt = 3 / 10\<rparr>,
      transit = \<lparr>evtime = Fin (1 / 86400), evazm = 0, evalt = 2 / 5\<rparr>,
      setting = \<lparr>evtime = Fin (5 / 86400), evazm = 0, evalt = 1 / 10\<rparr>\<rparr>"

definition lowGrazing :: "real \<Rightarrow> real" where
  "lowGrazing t = (if t = 1 / 86400 then - (1 / 10) else - (3 / 10))"

definition lowRecord :: SSPass where
  "lowRecord =
     \<lparr>rising = \<lparr>evtime = Fin (1 / 86400), evazm = 0, evalt = - (1 / 10)\<rparr>,
      transit = zeroEvent,
      setting = \<lparr>evtime = Fin (2 / 86400), evazm = 0, evalt = - (3 / 10)\<rparr>\<rparr>"

text \<open>
  A pass whose altitude is continuous in time: it climbs by \<open>1/10\<close> radian per
  second to \<open>3/10\<close> at three seconds after \<open>0\<close> and comes down at the same rate,
  not below \<open>-1\<close>. It crosses the threshold \<open>3/20\<close> between samples.
\<close>

definition tentPass :: "real \<Rightarrow> real" where
  "tentPass t = max (- 1) (3 / 10 - \<bar>86400 * t - 3\<bar> / 10)"

definition tentRecord :: SSPass where
  "tentRecord =
     \<lparr>rising = \<lparr>evtime = Fin (2 / 86400), evazm = 0, evalt = 1 / 5\<rparr>,
      transit = \<lparr>evtime = Fin (3 / 86400), evazm = 0, evalt = 3 / 10\<rparr>,
      setting = \<lparr>evtime = Fin (5 / 86400), evazm = 0, evalt = 1 / 10\<rparr>\<rparr>"

section \<open>Properties\<close>

lemma pi_lt_360: "pi < 360"
  using pi_less_4 by linarith

lemma modPi_range: "- pi < modPi x \<and> modPi x \<le> pi"
proof -
  define n where "n = \<lceil>(x - pi) / (2 * pi)\<rceil>"
  have p: "0 < 2 * pi" by simp
  have a: "(x - pi) / (2 * pi) \<le> of_int n"
    unfolding n_def by (rule le_of_int_ceiling)
  have b: "of_int n - 1 < (x - pi) / (2 * pi)"
    unfolding n_def using ceiling_correct[of "(x - pi) / (2 * pi)"] by simp
  from a p have a': "x - pi \<le> of_int n * (2 * pi)"
    by (simp add: pos_divide_le_eq)
  from b p have b': "(of_int n - 1) * (2 * pi) < x - pi"
    by (simp add: pos_less_divide_eq)
  have m: "modPi x = x - 2 * pi * of_int n"
    by (simp add: modPi_def kTwoPi_def kPi_def n_def)
  show ?thesis
    using a' b' unfolding m by (simp add: algebra_simps)
qed

lemma modPi_turns: "\<exists>n::int. modPi x = x - kTwoPi * of_int n"
  unfolding modPi_def by blast

lemma modPi_id:
  assumes "- pi < x" and "x \<le> pi"
  shows "modPi x = x"
proof -
  have p: "0 < 2 * pi" by simp
  have a: "(x - pi) / (2 * pi) \<le> 0"
    using assms p by (simp add: divide_le_0_iff)
  have "- 1 * (2 * pi) < x - pi"
    using assms by simp
  then have b: "- 1 < (x - pi) / (2 * pi)"
    using p by (simp only: pos_less_divide_eq)
  have "\<lceil>(x - pi) / (2 * pi)\<rceil> = 0"
    by (rule ceiling_unique) (use a b in simp_all)
  then show ?thesis
    by (simp add: modPi_def kPi_def kTwoPi_def)
qed

lemma arc_equator_horizon: "semiDiurnalArc 0 0 0 = Fin (pi / 2)"
  by (simp add: semiDiurnalArc_def cosHourAngle_def ddiv_def)

lemma arc_equator_zenith: "semiDiurnalArc 0 0 (pi / 2) = Fin 0"
  by (simp add: semiDiurnalArc_def cosHourAngle_def ddiv_def)

lemma arc_equator_nadir: "semiDiurnalArc 0 0 (- (pi / 2)) = Fin pi"
  by (simp add: semiDiurnalArc_def cosHourAngle_def ddiv_def kPi_def)

lemma arc_equator_30: "semiDiurnalArc 0 0 (pi / 6) = Fin (arccos (1 / 2))"
  by (simp add: semiDiurnalArc_def cosHourAngle_def ddiv_def sin_30)

lemma arccos_half_nonzero: "arccos (1 / 2) \<noteq> 0"
  by simp

subsection \<open>The search loop and the frame of the solvers\<close>

lemma setTime_cong: "cloc c1 = cloc c2 \<Longrightarrow> setTime t c1 = setTime t c2"
  by (cases c1, cases c2) (simp add: setTime_def)

lemma setTime_same: "cloc c1 = cloc c2 \<Longrightarrow> setTime (ctime c2) c1 = c2"
  by (cases c1, cases c2) (simp add: setTime_def)

lemma cloc_setTime: "cloc (setTime t c) = cloc c"
  by (simp add: setTime_def)

lemma searchLoop_cong:
  assumes "cloc ca = cloc cb"
  shows "searchLoop W sign alt time ca oa i = searchLoop W sign alt time cb ob i"
proof -
  have e: "setTime time ca = setTime time cb"
    using assms by (rule setTime_cong)
  show ?thesis
    by (subst searchLoop.simps, subst (2) searchLoop.simps) (simp only: e)
qed

lemma searchLoop_stop:
  assumes "\<not> (farFrom (riseTransitSetObj W time (setTime time coords)
                  (computeEphemeris W (setTime time coords)) sign alt) time
            \<and> \<not> isinf (riseTransitSetObj W time (setTime time coords)
                  (computeEphemeris W (setTime time coords)) sign alt)
            \<and> i + 1 < imax)"
  shows "searchLoop W sign alt time coords obj i
         = (riseTransitSetObj W time (setTime time coords)
              (computeEphemeris W (setTime time coords)) sign alt,
            setTime time coords, computeEphemeris W (setTime time coords), i + 1)"
  by (subst searchLoop.simps) (use assms in \<open>auto simp: Let_def\<close>)

lemma searchLoop_continue:
  assumes "riseTransitSetObj W time (setTime time coords)
             (computeEphemeris W (setTime time coords)) sign alt = Fin t"
    and "precision < \<bar>t - time\<bar>" and "i + 1 < imax"
  shows "searchLoop W sign alt time coords obj i
         = searchLoop W sign alt t (setTime time coords)
             (computeEphemeris W (setTime time coords)) (i + 1)"
  by (subst searchLoop.simps) (use assms in \<open>simp add: Let_def\<close>)

lemma searchLoop_step:
  "(\<exists>t. precision < \<bar>t - time\<bar> \<and> i + 1 < imax
        \<and> riseTransitSetObj W time (setTime time coords)
             (computeEphemeris W (setTime time coords)) sign alt = Fin t
        \<and> searchLoop W sign alt time coords obj i
           = searchLoop W sign alt t (setTime time coords)
               (computeEphemeris W (setTime time coords)) (i + 1))
   \<or> searchLoop W sign alt time coords obj i
         = (riseTransitSetObj W time (setTime time coords)
              (computeEphemeris W (setTime time coords)) sign alt,
            setTime time coords, computeEphemeris W (setTime time coords), i + 1)"
proof (cases "riseTransitSetObj W time (setTime time coords)
                (computeEphemeris W (setTime time coords)) sign alt")
  case (Fin t)
  show ?thesis
  proof (cases "precision < \<bar>t - time\<bar> \<and> i + 1 < imax")
    case True
    then show ?thesis
      using searchLoop_continue [OF Fin, of i obj] Fin by simp
  next
    case False
    then show ?thesis
      using searchLoop_stop [of W time coords sign alt i obj] Fin by auto
  qed
qed (use searchLoop_stop [of W time coords sign alt i obj] in simp_all)

lemma searchLoop_inv:
  "case searchLoop W sign alt time coords obj i of
     (t, c, ob, n) \<Rightarrow> cloc c = cloc coords \<and> ob = computeEphemeris W c
       \<and> i < n \<and> (i < imax \<longrightarrow> n \<le> imax)"
proof (induction "imax - i" arbitrary: time coords obj i rule: less_induct)
  case less
  from searchLoop_step [of time i W coords sign alt obj]
  show ?case
  proof (elim disjE exE conjE)
    fix t
    assume lt: "i + 1 < imax"
      and eq: "searchLoop W sign alt time coords obj i
           = searchLoop W sign alt t (setTime time coords)
               (computeEphemeris W (setTime time coords)) (i + 1)"
    have "case searchLoop W sign alt t (setTime time coords)
               (computeEphemeris W (setTime time coords)) (i + 1) of
            (t', c, ob, n) \<Rightarrow> cloc c = cloc (setTime time coords) \<and> ob = computeEphemeris W c
              \<and> i + 1 < n \<and> (i + 1 < imax \<longrightarrow> n \<le> imax)"
      by (rule less) (use lt in simp)
    then show ?thesis
      unfolding eq using lt by (auto simp: cloc_setTime split: prod.splits)
  next
    assume "searchLoop W sign alt time coords obj i
         = (riseTransitSetObj W time (setTime time coords)
              (computeEphemeris W (setTime time coords)) sign alt,
            setTime time coords, computeEphemeris W (setTime time coords), i + 1)"
    then show ?thesis
      by (simp add: cloc_setTime)
  qed
qed


lemma testWorld_ephemeris: "computeEphemeris (testWorld ra al) (setTime t c) = t"
  by (simp add: testWorld_def setTime_def)

lemma testWorld_step:
  "riseTransitSetObj (testWorld ra al) t (setTime u testCoords) ob 0 0
   = Fin (t + modPi (ra ob - kTwoPi * testRate * t) / kTwoPi / testRate)"
  by (simp add: riseTransitSetObj_def testWorld_def testTransform_def testCoords_def
      setTime_def riseTransitSet_def arc_equator_horizon kPi_def testSiderealTime_def)

lemma quarter_turn: "modPi (kTwoPi * testRate / 4) = kTwoPi * testRate / 4"
proof (rule modPi_id)
  have "0 < kTwoPi * testRate / 4"
    by (simp add: kTwoPi_def testRate_def)
  then show "- pi < kTwoPi * testRate / 4"
    using pi_gt_zero by linarith
  have "pi * (testRate / 2) \<le> pi * 1"
    by (rule mult_left_mono) (simp_all add: testRate_def)
  then show "kTwoPi * testRate / 4 \<le> pi"
    by (simp add: kTwoPi_def)
qed

lemma quarter_day: "kTwoPi * testRate / 4 / kTwoPi / testRate = 1 / 4"
  by (simp add: kTwoPi_def testRate_def)

lemma stepping_1:
  "riseTransitSetObj (testWorld steppingObject al) (1 / 2) (setTime u testCoords) (1 / 2) 0 0
   = Fin (3 / 4)"
proof -
  have a: "steppingObject (1 / 2) - kTwoPi * testRate * (1 / 2) = kTwoPi * testRate / 4"
    by (simp add: steppingObject_def)
  show ?thesis
    unfolding testWorld_step a quarter_turn quarter_day by simp
qed

lemma stepping_2:
  "riseTransitSetObj (testWorld steppingObject al) (3 / 4) (setTime u testCoords) (3 / 4) 0 0
   = Fin 1"
proof -
  have a: "steppingObject (3 / 4) - kTwoPi * testRate * (3 / 4) = kTwoPi * testRate / 4"
    by (simp add: steppingObject_def)
  show ?thesis
    unfolding testWorld_step a quarter_turn quarter_day by simp
qed

lemma stepping_3:
  "riseTransitSetObj (testWorld steppingObject al) 1 (setTime u testCoords) 1 0 0 = Fin 1"
proof -
  have a: "steppingObject 1 - kTwoPi * testRate * 1 = 0"
    by (simp add: steppingObject_def)
  have b: "modPi 0 = 0"
    by (rule modPi_id) simp_all
  show ?thesis
    unfolding testWorld_step a b by simp
qed

lemma setTime_setTime: "setTime t (setTime u c) = setTime t c"
  by (simp add: setTime_def)

lemma stepping_search:
  "searchLoop (testWorld steppingObject al) 0 0 (1 / 2) testCoords ob 0
   = (Fin 1, setTime 1 testCoords, 1, 3)"
proof -
  let ?W = "testWorld steppingObject al"
  have 1: "searchLoop ?W 0 0 (1 / 2) testCoords ob 0
           = searchLoop ?W 0 0 (3 / 4) (setTime (1 / 2) testCoords) (1 / 2) 1"
    using searchLoop_continue [where W = ?W and time = "1 / 2" and coords = testCoords
        and sign = 0 and alt = 0 and t = "3 / 4" and i = 0 and obj = ob]
    by (simp add: testWorld_ephemeris stepping_1 precision_def kSecondsPerDay_def imax_def)
  have 2: "searchLoop ?W 0 0 (3 / 4) (setTime (1 / 2) testCoords) (1 / 2) 1
           = searchLoop ?W 0 0 1 (setTime (3 / 4) testCoords) (3 / 4) 2"
    using searchLoop_continue [where W = ?W and time = "3 / 4"
        and coords = "setTime (1 / 2) testCoords"
        and sign = 0 and alt = 0 and t = 1 and i = 1 and obj = "1 / 2"]
    by (simp add: testWorld_ephemeris setTime_setTime stepping_2 precision_def
        kSecondsPerDay_def imax_def numeral_2_eq_2)
  have 3: "searchLoop ?W 0 0 1 (setTime (3 / 4) testCoords) (3 / 4) 2
           = (Fin 1, setTime 1 testCoords, 1, 3)"
    using searchLoop_stop [where W = ?W and time = 1 and coords = "setTime (3 / 4) testCoords"
        and sign = 0 and alt = 0 and i = 2 and obj = "3 / 4"]
    by (simp add: testWorld_ephemeris setTime_setTime stepping_3 precision_def
        kSecondsPerDay_def numeral_2_eq_2 numeral_3_eq_3)
  show ?thesis
    unfolding 1 2 3 ..
qed

lemma riseTransitSetSearch_cong:
  assumes "cloc ca = cloc cb"
  shows "riseTransitSetSearch W time ca oa sign alt = riseTransitSetSearch W time cb ob sign alt"
  unfolding riseTransitSetSearch_def
  by (simp only: searchLoop_cong [OF assms, where oa = oa and ob = ob])

lemma riseTransitSetSearch_frame:
  "riseTransitSetSearch W time coords obj sign alt = (t, c, ob) \<Longrightarrow>
     cloc c = cloc coords \<and> ob = computeEphemeris W c"
  using searchLoop_inv [where W = W and sign = sign and alt = alt and time = time
      and coords = coords and obj = obj and i = 0]
  by (auto simp: riseTransitSetSearch_def split: prod.splits)

lemma riseTransitSetSearchDay_cong:
  assumes "cloc ca = cloc cb"
  shows "riseTransitSetSearchDay W today ca oa sign alt
         = riseTransitSetSearchDay W today cb ob sign alt"
  unfolding riseTransitSetSearchDay_def Let_def
  by (simp only: riseTransitSetSearch_cong [OF assms, where oa = oa and ob = ob])

lemma riseTransitSetSearchDay_frame:
  assumes "riseTransitSetSearchDay W today coords obj sign alt = (t, c, ob)"
  shows "cloc c = cloc coords \<and> ob = computeEphemeris W c"
proof -
  define s where "s = getLocalMidnight W today"
  obtain t1 c1 o1 where s1: "riseTransitSetSearch W (s + 0.5) coords obj sign alt = (t1, c1, o1)"
    by (cases "riseTransitSetSearch W (s + 0.5) coords obj sign alt") auto
  obtain t2 c2 o2 where s2:
    "(if dgt t1 (s + 1) then riseTransitSetSearch W (s - 0.5) c1 o1 sign alt
      else if dlt t1 s then riseTransitSetSearch W (s + 1 + 0.5) c1 o1 sign alt
      else (t1, c1, o1)) = (t2, c2, o2)"
    by (cases "if dgt t1 (s + 1) then riseTransitSetSearch W (s - 0.5) c1 o1 sign alt
      else if dlt t1 s then riseTransitSetSearch W (s + 1 + 0.5) c1 o1 sign alt
      else (t1, c1, o1)") auto
  have v: "riseTransitSetSearchDay W today coords obj sign alt
           = (if dgt t2 (s + 1) \<or> dlt t2 s
              then (if sign = - 1 then NegInf else PosInf, c2, o2) else (t2, c2, o2))"
    unfolding riseTransitSetSearchDay_def Let_def s_def [symmetric] s1 prod.case s2 ..
  have f1: "cloc c1 = cloc coords \<and> o1 = computeEphemeris W c1"
    using riseTransitSetSearch_frame [OF s1] .
  have f2: "cloc c2 = cloc c1 \<and> o2 = computeEphemeris W c2"
  proof (cases "dgt t1 (s + 1) \<or> dlt t1 s")
    case True
    then have "riseTransitSetSearch W (if dgt t1 (s + 1) then s - 0.5 else s + 1 + 0.5)
                 c1 o1 sign alt = (t2, c2, o2)"
      using s2 by (auto split: if_splits)
    then show ?thesis
      by (rule riseTransitSetSearch_frame)
  next
    case False
    then have "t2 = t1 \<and> c2 = c1 \<and> o2 = o1"
      using s2 by auto
    then show ?thesis
      using f1 by simp
  qed
  have "c = c2 \<and> ob = o2"
    using assms unfolding v by (auto split: if_splits)
  then show ?thesis
    using f1 f2 by simp
qed

lemma riseTransitSetPass_value:
  "\<exists>pass. riseTransitSetPass W today coords obj alt = (pass, coords, computeEphemeris W coords)
        \<and> (\<forall>c ob. cloc c = cloc coords \<longrightarrow> fst (riseTransitSetPass W today c ob alt) = pass)"
proof -
  obtain t1 c1 o1 where s1: "riseTransitSetSearchDay W today coords obj kRise alt = (t1, c1, o1)"
    by (cases "riseTransitSetSearchDay W today coords obj kRise alt") auto
  obtain t2 c2 o2 where s2: "riseTransitSetSearchDay W today c1 o1 kTransit 0 = (t2, c2, o2)"
    by (cases "riseTransitSetSearchDay W today c1 o1 kTransit 0") auto
  obtain t3 c3 o3 where s3: "riseTransitSetSearchDay W today c2 o2 kSet alt = (t3, c3, o3)"
    by (cases "riseTransitSetSearchDay W today c2 o2 kSet alt") auto
  have l: "cloc c3 = cloc coords"
    using riseTransitSetSearchDay_frame [OF s1] riseTransitSetSearchDay_frame [OF s2]
      riseTransitSetSearchDay_frame [OF s3] by simp
  have r: "setTime (ctime coords) c3 = coords"
    using l by (rule setTime_same)
  have a: "riseTransitSetPass W today coords obj alt
           = (zeroPass\<lparr>rising := recordEvent W t1 c1 o1 (rising zeroPass),
                       transit := recordEvent W t2 c2 o2 (transit zeroPass),
                       setting := recordEvent W t3 c3 o3 (setting zeroPass)\<rparr>,
              coords, computeEphemeris W coords)"
    unfolding riseTransitSetPass_def Let_def s1 prod.case s2 s3 r by simp
  have b: "fst (riseTransitSetPass W today c ob alt)
           = zeroPass\<lparr>rising := recordEvent W t1 c1 o1 (rising zeroPass),
                       transit := recordEvent W t2 c2 o2 (transit zeroPass),
                       setting := recordEvent W t3 c3 o3 (setting zeroPass)\<rparr>"
    if "cloc c = cloc coords" for c ob
  proof -
    have s1': "riseTransitSetSearchDay W today c ob kRise alt = (t1, c1, o1)"
      unfolding riseTransitSetSearchDay_cong [OF that, where oa = ob and ob = obj] by (rule s1)
    show ?thesis
      unfolding riseTransitSetPass_def Let_def s1' prod.case s2 s3 by simp
  qed
  show ?thesis
    using a b by blast
qed

lemma sweep_frame:
  "sweep W start stop minAlt time coords obj st oldAlt = (c, ob, ps) \<Longrightarrow> cloc c = cloc coords"
proof (induction W start stop minAlt time coords obj st oldAlt rule: sweep.induct)
  case (1 W start stop minAlt time coords obj st oldAlt)
  show ?case
  proof (cases "time \<le> stop")
    case False
    then show ?thesis
      using "1.prems" by (subst (asm) sweep.simps) simp
  next
    case True
    have "cloc c = cloc (setTime time coords)"
      by (rule "1.IH" [OF True refl refl refl refl refl refl refl])
         (use "1.prems" True in \<open>subst (asm) sweep.simps, simp add: Let_def\<close>)
    then show ?thesis
      by (simp add: cloc_setTime)
  qed
qed

subsection \<open>The invariant of the satellite sweep\<close>

lemma sweepStep_pos: "0 < sweepStep a"
  by (simp add: sweepStep_def kSecondsPerDay_def kMinutesPerDay_def)

lemma sampleTime_Suc_less: "sampleTime A start n < sampleTime A start (Suc n)"
  using sweepStep_pos [of "A (sampleTime A start n)"] by simp

lemma sampleTime_less: "i < j \<Longrightarrow> sampleTime A start i < sampleTime A start j"
proof (induction j)
  case 0
  then show ?case by simp
next
  case (Suc j)
  show ?case
  proof (cases "i = j")
    case True
    then show ?thesis
      using sampleTime_Suc_less [of A start j] by simp
  next
    case False
    then have "sampleTime A start i < sampleTime A start j"
      using Suc by simp
    then show ?thesis
      using sampleTime_Suc_less [of A start j] by linarith
  qed
qed

lemma sampleTime_le: "i \<le> j \<Longrightarrow> sampleTime A start i \<le> sampleTime A start j"
  using sampleTime_less [of i j A start] by (cases "i = j") simp_all

lemma sampleTime_after_start: "0 < j \<Longrightarrow> start < sampleTime A start j"
  using sampleTime_less [of 0 j A start] by simp

lemma lowPass_negative:
  assumes "lowPass A start stop minAlt p"
  shows "minAlt < 0 \<and> evalt (rising p) \<le> 0"
proof -
  obtain j k where "j < k" "evalt (rising p) = A (sampleTime A start j)"
      "minAlt < A (sampleTime A start j)"
      "\<forall>i. j \<le> i \<and> i < k \<longrightarrow> A (sampleTime A start i) \<le> 0"
    using assms unfolding lowPass_def by blast
  then have "A (sampleTime A start j) \<le> 0" "evalt (rising p) = A (sampleTime A start j)"
      "minAlt < A (sampleTime A start j)"
    by auto
  then show ?thesis
    by linarith
qed

lemma sweepEvents_inv:
  assumes inv: "sweepInv A start stop minAlt n st oldAlt"
    and alt: "alt = A (sampleTime A start n)" "alt \<noteq> minAlt"
    and old: "oldAlt \<noteq> minAlt"
    and t: "sampleTime A start n \<le> stop"
  shows "sweepInv A start stop minAlt (Suc n)
           (sweepEvents minAlt (sampleTime A start n) azm alt oldAlt st) alt"
proof -
  obtain pass maxAlt passes where st: "st = (pass, maxAlt, passes)"
    by (cases st) auto
  note I = inv [unfolded sweepInv_def st prod.case]
  have n: "0 < n"
    using I by simp
  have o: "oldAlt = A (sampleTime A start (n - 1))"
    using I by simp
  have ps: "\<forall>p \<in> set passes. goodPass A start stop minAlt p \<or> lowPass A start stop minAlt p"
    using I by simp
  consider (bb) "oldAlt < minAlt" "alt < minAlt" | (ba) "oldAlt < minAlt" "minAlt < alt"
    | (aa) "minAlt < oldAlt" "minAlt < alt" | (ab) "minAlt < oldAlt" "alt < minAlt"
    using alt old by fastforce
  then show ?thesis
  proof cases
    case bb
    then have "maxAlt \<le> max 0 minAlt"
      using I by simp
    then show ?thesis
      using bb ps alt(1) unfolding sweepInv_def st sweepEvents_def
      by (auto simp: Let_def max_def)
  next
    case ba
    then have mx: "maxAlt \<le> max 0 minAlt"
      using I by simp
    show ?thesis
    proof (cases "maxAlt < alt")
      case True
      have "\<exists>j. 0 < j \<and> j < Suc n
                \<and> Fin (sampleTime A start n) = Fin (sampleTime A start j)
                \<and> alt = A (sampleTime A start j)
                \<and> A (sampleTime A start (j - 1)) < minAlt
                \<and> minAlt < A (sampleTime A start j)
                \<and> ((\<exists>m. j \<le> m \<and> m < Suc n
                       \<and> Fin (sampleTime A start n) = Fin (sampleTime A start m)
                       \<and> alt = A (sampleTime A start m)
                       \<and> A (sampleTime A start j) \<le> A (sampleTime A start m)
                       \<and> alt = A (sampleTime A start m))
                    \<or> (alt \<le> 0
                        \<and> (\<forall>i. j \<le> i \<and> i < Suc n \<longrightarrow> A (sampleTime A start i) \<le> alt)))"
        using n o ba alt(1) by (intro exI [of _ n]) auto
      then show ?thesis
        using ba True ps alt(1) unfolding sweepInv_def st sweepEvents_def
        by (simp add: Let_def)
    next
      case False
      then have "maxAlt \<le> 0"
        using mx ba by (simp add: max_def split: if_splits)
      then have "\<exists>j. 0 < j \<and> j < Suc n
                \<and> Fin (sampleTime A start n) = Fin (sampleTime A start j)
                \<and> alt = A (sampleTime A start j)
                \<and> A (sampleTime A start (j - 1)) < minAlt
                \<and> minAlt < A (sampleTime A start j)
                \<and> ((\<exists>m. j \<le> m \<and> m < Suc n
                       \<and> evtime (transit pass) = Fin (sampleTime A start m)
                       \<and> evalt (transit pass) = A (sampleTime A start m)
                       \<and> A (sampleTime A start j) \<le> A (sampleTime A start m)
                       \<and> maxAlt = A (sampleTime A start m))
                    \<or> (maxAlt \<le> 0
                        \<and> (\<forall>i. j \<le> i \<and> i < Suc n \<longrightarrow> A (sampleTime A start i) \<le> maxAlt)))"
        using n o ba alt(1) False by (intro exI [of _ n]) (auto simp: less_Suc_eq)
      then show ?thesis
        using ba False ps alt(1) unfolding sweepInv_def st sweepEvents_def
        by (simp add: Let_def)
    qed
  next
    case aa
    then obtain j where j: "0 < j" "j < n"
        "evtime (rising pass) = Fin (sampleTime A start j)"
        "evalt (rising pass) = A (sampleTime A start j)"
        "A (sampleTime A start (j - 1)) < minAlt" "minAlt < A (sampleTime A start j)"
      and d: "(\<exists>m. j \<le> m \<and> m < n
                       \<and> evtime (transit pass) = Fin (sampleTime A start m)
                       \<and> evalt (transit pass) = A (sampleTime A start m)
                       \<and> A (sampleTime A start j) \<le> A (sampleTime A start m)
                       \<and> maxAlt = A (sampleTime A start m))
                \<or> (maxAlt \<le> 0
                    \<and> (\<forall>i. j \<le> i \<and> i < n \<longrightarrow> A (sampleTime A start i) \<le> maxAlt))"
      using I by auto
    have jm: "A (sampleTime A start j) \<le> maxAlt"
      using d j(2) by auto
    show ?thesis
    proof (cases "maxAlt < alt")
      case True
      have "(\<exists>m. j \<le> m \<and> m < Suc n
                       \<and> Fin (sampleTime A start n) = Fin (sampleTime A start m)
                       \<and> alt = A (sampleTime A start m)
                       \<and> A (sampleTime A start j) \<le> A (sampleTime A start m)
                       \<and> alt = A (sampleTime A start m))"
        using j(2) jm True alt(1) by (intro exI [of _ n]) auto
      then have "\<exists>j. 0 < j \<and> j < Suc n
                \<and> evtime (rising pass) = Fin (sampleTime A start j)
                \<and> evalt (rising pass) = A (sampleTime A start j)
                \<and> A (sampleTime A start (j - 1)) < minAlt
                \<and> minAlt < A (sampleTime A start j)
                \<and> ((\<exists>m. j \<le> m \<and> m < Suc n
                       \<and> Fin (sampleTime A start n) = Fin (sampleTime A start m)
                       \<and> alt = A (sampleTime A start m)
                       \<and> A (sampleTime A start j) \<le> A (sampleTime A start m)
                       \<and> alt = A (sampleTime A start m))
                    \<or> (alt \<le> 0
                        \<and> (\<forall>i. j \<le> i \<and> i < Suc n \<longrightarrow> A (sampleTime A start i) \<le> alt)))"
        using j by (intro exI [of _ j]) auto
      then show ?thesis
        using aa True ps alt(1) unfolding sweepInv_def st sweepEvents_def
        by (simp add: Let_def)
    next
      case False
      have "(\<exists>m. j \<le> m \<and> m < Suc n
                       \<and> evtime (transit pass) = Fin (sampleTime A start m)
                       \<and> evalt (transit pass) = A (sampleTime A start m)
                       \<and> A (sampleTime A start j) \<le> A (sampleTime A start m)
                       \<and> maxAlt = A (sampleTime A start m))
                \<or> (maxAlt \<le> 0
                    \<and> (\<forall>i. j \<le> i \<and> i < Suc n \<longrightarrow> A (sampleTime A start i) \<le> maxAlt))"
        using d False alt(1) by (auto simp: less_Suc_eq)
      then have "\<exists>j. 0 < j \<and> j < Suc n
                \<and> evtime (rising pass) = Fin (sampleTime A start j)
                \<and> evalt (rising pass) = A (sampleTime A start j)
                \<and> A (sampleTime A start (j - 1)) < minAlt
                \<and> minAlt < A (sampleTime A start j)
                \<and> ((\<exists>m. j \<le> m \<and> m < Suc n
                       \<and> evtime (transit pass) = Fin (sampleTime A start m)
                       \<and> evalt (transit pass) = A (sampleTime A start m)
                       \<and> A (sampleTime A start j) \<le> A (sampleTime A start m)
                       \<and> maxAlt = A (sampleTime A start m))
                    \<or> (maxAlt \<le> 0
                        \<and> (\<forall>i. j \<le> i \<and> i < Suc n \<longrightarrow> A (sampleTime A start i) \<le> maxAlt)))"
        using j by (intro exI [of _ j]) auto
      then show ?thesis
        using aa False ps alt(1) unfolding sweepInv_def st sweepEvents_def
        by (simp add: Let_def)
    qed
  next
    case ab
    then obtain j where j: "0 < j" "j < n"
        "evtime (rising pass) = Fin (sampleTime A start j)"
        "evalt (rising pass) = A (sampleTime A start j)"
        "A (sampleTime A start (j - 1)) < minAlt" "minAlt < A (sampleTime A start j)"
      and d: "(\<exists>m. j \<le> m \<and> m < n
                       \<and> evtime (transit pass) = Fin (sampleTime A start m)
                       \<and> evalt (transit pass) = A (sampleTime A start m)
                       \<and> A (sampleTime A start j) \<le> A (sampleTime A start m)
                       \<and> maxAlt = A (sampleTime A start m))
                \<or> (maxAlt \<le> 0
                    \<and> (\<forall>i. j \<le> i \<and> i < n \<longrightarrow> A (sampleTime A start i) \<le> maxAlt))"
      using I by auto
    have jm: "A (sampleTime A start j) \<le> maxAlt"
      using d j(2) by auto
    have no: "\<not> maxAlt < alt"
      using jm j(6) ab by simp
    let ?p = "pass\<lparr>setting := \<lparr>evtime = Fin (sampleTime A start n), evazm = azm, evalt = alt\<rparr>\<rparr>"
    have sj: "start < sampleTime A start j"
      using j(1) by (rule sampleTime_after_start)
    have jn: "sampleTime A start j < sampleTime A start n"
      using j(2) by (rule sampleTime_less)
    have g: "goodPass A start stop minAlt ?p \<or> lowPass A start stop minAlt ?p"
      using d
    proof
      assume "\<exists>m. j \<le> m \<and> m < n
                       \<and> evtime (transit pass) = Fin (sampleTime A start m)
                       \<and> evalt (transit pass) = A (sampleTime A start m)
                       \<and> A (sampleTime A start j) \<le> A (sampleTime A start m)
                       \<and> maxAlt = A (sampleTime A start m)"
      then obtain m where m: "j \<le> m" "m < n"
          "evtime (transit pass) = Fin (sampleTime A start m)"
          "evalt (transit pass) = A (sampleTime A start m)"
          "A (sampleTime A start j) \<le> A (sampleTime A start m)"
        by blast
      have "goodPass A start stop minAlt ?p"
        unfolding goodPass_def
        using j m t ab alt(1) sj sampleTime_le [OF m(1), of A start]
          sampleTime_less [OF m(2), of A start]
        by (intro exI [of _ j] exI [of _ m] exI [of _ n]) simp
      then show ?thesis ..
    next
      assume "maxAlt \<le> 0
                \<and> (\<forall>i. j \<le> i \<and> i < n \<longrightarrow> A (sampleTime A start i) \<le> maxAlt)"
      then have "\<forall>i. j \<le> i \<and> i < n \<longrightarrow> A (sampleTime A start i) \<le> 0"
        by fastforce
      then have "lowPass A start stop minAlt ?p"
        unfolding lowPass_def
        using j t ab alt(1) sj jn
        by (intro exI [of _ j] exI [of _ n]) simp
      then show ?thesis ..
    qed
    show ?thesis
      using ab no g ps alt(1) unfolding sweepInv_def st sweepEvents_def
      by (simp add: Let_def)
  qed
qed

lemma altitudeAt_cong: "cloc ca = cloc cb \<Longrightarrow> altitudeAt W ca t = altitudeAt W cb t"
  by (simp add: altitudeAt_def horizonAt_def setTime_cong [of ca cb])

lemma sweep_stop:
  "\<not> time \<le> stop \<Longrightarrow> sweep W start stop minAlt time coords obj st oldAlt = (coords, obj, snd (snd st))"
  by (subst sweep.simps) simp

lemma sweep_step:
  "time \<le> stop \<Longrightarrow>
     sweep W start stop minAlt time coords obj st oldAlt
     = sweep W start stop minAlt (time + sweepStep (altitudeAt W coords time))
         (setTime time coords) (computeEphemeris W (setTime time coords))
         (if time > start
          then sweepEvents minAlt time (slon (horizonAt W coords time))
                 (altitudeAt W coords time) oldAlt st
          else st)
         (altitudeAt W coords time)"
  by (subst sweep.simps) (simp add: Let_def altitudeAt_def horizonAt_def)

lemma sweep_inv:
  "\<forall>k. sampleTime (altitudeAt W coords) start k \<le> stop
        \<longrightarrow> altitudeAt W coords (sampleTime (altitudeAt W coords) start k) \<noteq> minAlt \<Longrightarrow>
   time = sampleTime (altitudeAt W coords) start n \<Longrightarrow>
   cloc c0 = cloc coords \<Longrightarrow>
   sweepInv (altitudeAt W coords) start stop minAlt n st oldAlt \<Longrightarrow>
   \<forall>p \<in> set (snd (snd (sweep W start stop minAlt time c0 obj st oldAlt))).
      goodPass (altitudeAt W coords) start stop minAlt p
      \<or> lowPass (altitudeAt W coords) start stop minAlt p"
proof (induction W start stop minAlt time c0 obj st oldAlt arbitrary: n rule: sweep.induct)
  case (1 W start stop minAlt time c0 obj st oldAlt)
  let ?A = "altitudeAt W coords"
  show ?case
  proof (cases "time \<le> stop")
    case False
    then show ?thesis
      using "1.prems"(4) by (auto simp: sweep_stop sweepInv_def split: prod.splits)
  next
    case True
    define alt where "alt = altitudeAt W c0 time"
    define azm where "azm = slon (horizonAt W c0 time)"
    have a: "alt = ?A (sampleTime ?A start n)"
      unfolding alt_def "1.prems"(2) using "1.prems"(3) by (rule altitudeAt_cong)
    have n: "0 < n" and o: "oldAlt = ?A (sampleTime ?A start (n - 1))"
      using "1.prems"(4) by (auto simp: sweepInv_def split: prod.splits)
    have tn: "sampleTime ?A start n \<le> stop"
      using True "1.prems"(2) by simp
    have "sampleTime ?A start (n - 1) \<le> sampleTime ?A start n"
      by (rule sampleTime_le) simp
    then have "sampleTime ?A start (n - 1) \<le> stop"
      using tn by linarith
    then have old: "oldAlt \<noteq> minAlt"
      using "1.prems"(1) o by blast
    have an: "alt \<noteq> minAlt"
      using "1.prems"(1) tn a by blast
    have st: "start < time"
      unfolding "1.prems"(2) using n by (rule sampleTime_after_start)
    have inv: "sweepInv ?A start stop minAlt (Suc n)
                 (sweepEvents minAlt (sampleTime ?A start n) azm alt oldAlt st) alt"
      using "1.prems"(4) a an old tn by (rule sweepEvents_inv)
    have nx: "time + sweepStep alt = sampleTime ?A start (Suc n)"
      using a "1.prems"(2) by simp
    have "\<forall>p \<in> set (snd (snd (sweep W start stop minAlt (time + sweepStep alt)
              (setTime time c0) (computeEphemeris W (setTime time c0))
              (if time > start then sweepEvents minAlt time azm alt oldAlt st else st) alt))).
            goodPass ?A start stop minAlt p \<or> lowPass ?A start stop minAlt p"
      unfolding alt_def azm_def altitudeAt_def [of W c0] horizonAt_def Let_def
    proof (rule "1.IH" [OF True refl refl refl refl refl refl refl, where n = "Suc n"])
      show "\<forall>k. sampleTime ?A start k \<le> stop \<longrightarrow> ?A (sampleTime ?A start k) \<noteq> minAlt"
        using "1.prems"(1) .
      show "cloc (setTime time c0) = cloc coords"
        using "1.prems"(3) by (simp add: cloc_setTime)
      show "time + sweepStep (slat (transform W (setTime time c0) kFundamental kHorizon
              (getDirection W (computeEphemeris W (setTime time c0)))))
            = sampleTime ?A start (Suc n)"
        using nx unfolding alt_def altitudeAt_def [of W c0] horizonAt_def Let_def .
      show "sweepInv ?A start stop minAlt (Suc n)
              (if start < time
               then sweepEvents minAlt time
                      (slon (transform W (setTime time c0) kFundamental kHorizon
                         (getDirection W (computeEphemeris W (setTime time c0)))))
                      (slat (transform W (setTime time c0) kFundamental kHorizon
                         (getDirection W (computeEphemeris W (setTime time c0)))))
                      oldAlt st
               else st)
              (slat (transform W (setTime time c0) kFundamental kHorizon
                 (getDirection W (computeEphemeris W (setTime time c0)))))"
        using inv st
        unfolding alt_def azm_def altitudeAt_def [of W c0] horizonAt_def Let_def "1.prems"(2)
        by simp
    qed
    then show ?thesis
      unfolding sweep_step [OF True] alt_def azm_def by simp
  qed
qed

lemma findSatellitePasses_sweep:
  "fst (snd (findSatellitePasses W coords obj start stop minAlt passes))
   = snd (snd (sweep W start stop minAlt start coords obj (zeroPass, 0, passes) 0))"
  by (simp add: findSatellitePasses_def Let_def split: prod.splits)

lemma testWorld_altitude: "altitudeAt (testWorld ra al) c t = al t"
  by (simp add: altitudeAt_def horizonAt_def testWorld_def testTransform_def setTime_def)

lemma testWorld_azimuth: "slon (horizonAt (testWorld ra al) c t) = 0"
  by (simp add: horizonAt_def testWorld_def testTransform_def setTime_def)

lemma sweepStep_fine: "- 45 \<le> a \<Longrightarrow> sweepStep a = 1 / 86400"
proof -
  assume a: "- 45 \<le> a"
  have "45 * pi < 180"
    using pi_less_4 by linarith
  then have "45 < 180 / pi"
    using pi_gt_zero by (simp add: field_simps)
  then have "- 1 * kDegPerRad < a"
    using a by (simp add: kDegPerRad_def)
  then show ?thesis
    by (simp add: sweepStep_def kSecondsPerDay_def)
qed

lemmas sweep_eval =
  findSatellitePasses_sweep sweep_step sweep_stop testWorld_altitude testWorld_azimuth
  sweepStep_fine testWorld_ephemeris setTime_setTime sweepEvents_def Let_def zeroPass_def

lemma grazing_passes:
  "fst (snd (findSatellitePasses (testWorld fixedStar grazingPass) testCoords 0 0 (2 / 86400) (1 / 5) []))
   = [grazingRecord]"
  by (simp add: sweep_eval grazingPass_def grazingRecord_def)

lemma underway_passes:
  "fst (snd (findSatellitePasses (testWorld fixedStar underwayPass) testCoords 0 0 (1 / 86400) (1 / 5) []))
   = [underwayRecord]"
  by (simp add: sweep_eval underwayPass_def underwayRecord_def)

lemma touching_passes:
  "fst (snd (findSatellitePasses (testWorld fixedStar touchingPass) testCoords 0 0 (5 / 86400) (1 / 5) []))
   = [touchingRecord]"
  by (simp add: sweep_eval touchingPass_def touchingRecord_def)

lemma low_passes:
  "fst (snd (findSatellitePasses (testWorld fixedStar lowGrazing) testCoords 0 0 (2 / 86400) (- (1 / 5)) []))
   = [lowRecord]"
  by (simp add: sweep_eval lowGrazing_def lowRecord_def)

lemma tent_passes:
  "fst (snd (findSatellitePasses (testWorld fixedStar tentPass) testCoords 0 0 (5 / 86400) (3 / 20) []))
   = [tentRecord]"
  by (simp add: sweep_eval tentPass_def tentRecord_def)

lemma tent_samples: "sampleTime tentPass 0 n = real n / 86400"
proof (induction n)
  case 0
  then show ?case by simp
next
  case (Suc n)
  have st: "sweepStep (tentPass x) = 1 / 86400" for x
    by (rule sweepStep_fine) (simp add: tentPass_def)
  have "sampleTime tentPass 0 (Suc n)
        = sampleTime tentPass 0 n + sweepStep (tentPass (sampleTime tentPass 0 n))"
    by simp
  also have "\<dots> = real n / 86400 + 1 / 86400"
    by (simp only: st Suc)
  also have "\<dots> = real (Suc n) / 86400"
    by (simp add: add_divide_distrib)
  finally show ?case .
qed

lemma tent_off_threshold: "tentPass (real n / 86400) \<noteq> 3 / 20"
proof
  assume "tentPass (real n / 86400) = 3 / 20"
  then have "\<bar>real n - 3\<bar> = 3 / 2"
    by (simp add: tentPass_def max_def split: if_splits)
  then have "real n = 9 / 2 \<or> real n = 3 / 2"
    by (auto simp: abs_if split: if_splits)
  then have "real (2 * n) = real 9 \<or> real (2 * n) = real 3"
    by auto
  then have "2 * n = 9 \<or> 2 * n = 3"
    unfolding of_nat_eq_iff .
  then show False
    by arith
qed

subsection \<open>Narrowing to single precision\<close>














subsection \<open>The claims\<close>

text \<open>
  C1. The claim is that \<open>illumination p\<close> is \<open>(1 + cos p) / 2\<close>, so \<open>1\<close> at
  \<open>p = 0\<close> and \<open>0\<close> at \<open>p = \<pi>\<close>. The code divides only the cosine by two: at
  \<open>p = 0\<close> it returns \<open>3/2\<close> and at \<open>p = \<pi>\<close> it returns \<open>1/2\<close>, both outside
  what the function's own comment promises (a fraction from 0.0 to 1.0).
\<close>

theorem illumination_at_zero_and_pi:
  "illumination 0 = 3 / 2 \<and> illumination pi = 1 / 2
   \<and> illumination 0 \<noteq> (1 + cos 0) / 2 \<and> illumination pi \<noteq> (1 + cos pi) / 2"
  by (simp add: illumination_def)

text \<open>
  C2. The claim is that the sweep takes the one-second step exactly when the
  altitude is above one degree below the horizon. The code compares the altitude,
  in radians, with \<open>-kDegPerRad\<close> (about \<open>-57.3\<close>): at an altitude of \<open>-1/2\<close>
  radian, more than 28 degrees below the horizon, it still takes the one-second
  step where the claim has the one-minute step.
\<close>

theorem sweepStep_half_radian_below:
  "- (1 / 2) \<le> - 1 * kRadPerDeg \<and> sweepStep (- (1 / 2)) = 1 / 86400
   \<and> sweepStep (- (1 / 2)) \<noteq> 1 / 1440"
proof -
  have a: "pi / 180 \<le> 1 / 2"
    using pi_less_4 by linarith
  have "pi < 360"
    by (rule pi_lt_360)
  then have "1 / 2 < 180 / pi"
    using pi_gt_zero by (simp add: field_simps)
  then have b: "sweepStep (- (1 / 2)) = 1 / 86400"
    by (simp add: sweepStep_def kDegPerRad_def kSecondsPerDay_def)
  show ?thesis
    using a b by (simp add: kRadPerDeg_def)
qed

text \<open>
  C6. With \<open>c\<close> the quotient \<open>(sin alt - sin dec sin lat) / (cos dec cos lat)\<close>,
  \<open>semiDiurnalArc\<close> returns exactly \<open>0\<close> when \<open>c \<ge> 1\<close>, exactly \<open>\<pi>\<close> when
  \<open>c \<le> -1\<close>, and otherwise \<open>arccos c\<close>, which lies in \<open>[0, \<pi>]\<close>. The quotient
  is the one the machine forms: the real quotient when the divisor is not zero,
  and \<open>+\<infinity>\<close> or \<open>-\<infinity>\<close> (which fall under the first two cases) when the
  divisor is zero and the dividend is not. The quotient \<open>0/0\<close>, the only one
  left, needs a latitude or declination that is exactly an odd multiple of
  \<open>\<pi>/2\<close>, which no double is.
\<close>

theorem semiDiurnalArc_cases:
  "(dge (cosHourAngle lat dec alt) 1 \<longrightarrow> semiDiurnalArc lat dec alt = Fin 0)
   \<and> (dle (cosHourAngle lat dec alt) (- 1) \<longrightarrow> semiDiurnalArc lat dec alt = Fin pi)
   \<and> (\<forall>c. cosHourAngle lat dec alt = Fin c \<and> - 1 < c \<and> c < 1 \<longrightarrow>
        semiDiurnalArc lat dec alt = Fin (arccos c) \<and> 0 \<le> arccos c \<and> arccos c \<le> pi)
   \<and> (cos dec * cos lat \<noteq> 0 \<longrightarrow>
        cosHourAngle lat dec alt = Fin ((sin alt - sin dec * sin lat) / (cos dec * cos lat)))
   \<and> (cos dec * cos lat = 0 \<and> sin alt > sin dec * sin lat \<longrightarrow> cosHourAngle lat dec alt = PosInf)
   \<and> (cos dec * cos lat = 0 \<and> sin alt < sin dec * sin lat \<longrightarrow> cosHourAngle lat dec alt = NegInf)"
  by (cases "cosHourAngle lat dec alt")
     (auto simp: semiDiurnalArc_def Let_def kPi_def arccos_lbound arccos_ubound cosHourAngle_def ddiv_def split: if_splits)

theorem semiDiurnalArc_cases_witness:
  "semiDiurnalArc 0 0 (pi / 2) = Fin 0
   \<and> semiDiurnalArc 0 0 (- (pi / 2)) = Fin pi
   \<and> semiDiurnalArc 0 0 0 = Fin (arccos 0) \<and> 0 \<le> arccos 0 \<and> arccos 0 \<le> pi
   \<and> cosHourAngle 0 0 0 = Fin 0
   \<and> cosHourAngle (pi / 2) 0 (pi / 2) = PosInf
   \<and> cosHourAngle (pi / 2) 0 (- (pi / 2)) = NegInf
   \<and> semiDiurnalArc (pi / 2) 0 (pi / 2) = Fin 0
   \<and> semiDiurnalArc (pi / 2) 0 (- (pi / 2)) = Fin pi"
proof -
  have c0: "cosHourAngle 0 0 0 = Fin 0"
    by (simp add: cosHourAngle_def ddiv_def)
  have c1: "dge (cosHourAngle 0 0 (pi / 2)) 1"
    by (simp add: cosHourAngle_def ddiv_def)
  have c2: "dle (cosHourAngle 0 0 (- (pi / 2))) (- 1)"
    by (simp add: cosHourAngle_def ddiv_def)
  have c3: "cos 0 * cos (pi / 2) = (0::real) \<and> sin (pi / 2) > sin (0::real) * sin (pi / 2)"
    by simp
  have c4: "cos 0 * cos (pi / 2) = (0::real) \<and> sin (- (pi / 2)) < sin (0::real) * sin (pi / 2)"
    by simp
  have p: "cosHourAngle (pi / 2) 0 (pi / 2) = PosInf"
    using semiDiurnalArc_cases [of "pi / 2" 0 "pi / 2"] c3 by blast
  have n: "cosHourAngle (pi / 2) 0 (- (pi / 2)) = NegInf"
    using semiDiurnalArc_cases [of "pi / 2" 0 "- (pi / 2)"] c4 by blast
  show ?thesis
    using semiDiurnalArc_cases [of 0 0 "pi / 2"] semiDiurnalArc_cases [of 0 0 "- (pi / 2)"]
      semiDiurnalArc_cases [of 0 0 0] semiDiurnalArc_cases [of "pi / 2" 0 "pi / 2"]
      semiDiurnalArc_cases [of "pi / 2" 0 "- (pi / 2)"] c0 c1 c2 p n
    by simp
qed

text \<open>
  C7. If the semi-diurnal arc is \<open>\<pi>\<close> and \<open>sign \<noteq> 0\<close>, \<open>riseTransitSet\<close> returns
  \<open>+\<infinity>\<close>; if the arc is \<open>0\<close> it returns \<open>-\<infinity>\<close>, whatever the sign. So an
  object that never goes below the horizon altitude (\<open>c \<le> -1\<close>) queried for its
  setting yields \<open>+\<infinity>\<close>, and one that never reaches it (\<open>c \<ge> 1\<close>) queried for
  its rising yields \<open>-\<infinity>\<close>.
\<close>

theorem riseTransitSet_never:
  "(semiDiurnalArc lat dec alt = Fin pi \<and> sign \<noteq> 0 \<longrightarrow>
      riseTransitSet gst ksid time ra dec sign lon lat alt = PosInf)
   \<and> (semiDiurnalArc lat dec alt = Fin 0 \<longrightarrow>
      riseTransitSet gst ksid time ra dec sign lon lat alt = NegInf)
   \<and> (dle (cosHourAngle lat dec alt) (- 1) \<longrightarrow>
      riseTransitSet gst ksid time ra dec 1 lon lat alt = PosInf)
   \<and> (dge (cosHourAngle lat dec alt) 1 \<longrightarrow>
      riseTransitSet gst ksid time ra dec (- 1) lon lat alt = NegInf)"
  by (cases "cosHourAngle lat dec alt")
     (auto simp: riseTransitSet_def semiDiurnalArc_def Let_def kPi_def)

theorem riseTransitSet_never_witness:
  "riseTransitSet testSiderealTime testRate 0 0 0 1 0 0 (- (pi / 2)) = PosInf
   \<and> riseTransitSet testSiderealTime testRate 0 0 0 (- 1) 0 0 (pi / 2) = NegInf
   \<and> riseTransitSet testSiderealTime testRate 0 0 0 1 0 0 (pi / 2) = NegInf"
proof -
  have c1: "dge (cosHourAngle 0 0 (pi / 2)) 1"
    by (simp add: cosHourAngle_def ddiv_def)
  have c2: "dle (cosHourAngle 0 0 (- (pi / 2))) (- 1)"
    by (simp add: cosHourAngle_def ddiv_def)
  show ?thesis
    using riseTransitSet_never [of 0 0 "- (pi / 2)" 1 testSiderealTime testRate 0 0 0]
      riseTransitSet_never [of 0 0 "pi / 2" "- 1" testSiderealTime testRate 0 0 0]
      riseTransitSet_never [of 0 0 "pi / 2" 1 testSiderealTime testRate 0 0 0]
      arc_equator_zenith arc_equator_nadir c1 c2
    by simp
qed

text \<open>
  C3, as stated: for every input, a transit query (\<open>sign = 0\<close>) returns a finite
  time that does not depend on the horizon altitude. It fails for an object on
  the equator seen from the equator: with the horizon altitude at the zenith the
  arc is \<open>0\<close> and the answer is \<open>-\<infinity>\<close>, while with horizon altitude \<open>0\<close> the
  answer is the finite transit time.
\<close>

theorem riseTransitSet_transit_counterexample:
  "riseTransitSet testSiderealTime testRate 0 0 0 0 0 0 (pi / 2) = NegInf
   \<and> riseTransitSet testSiderealTime testRate 0 0 0 0 0 0 0 = Fin 0"
  by (simp add: riseTransitSet_def arc_equator_zenith arc_equator_horizon kPi_def
      testSiderealTime_def modPi_id)

text \<open>
  C3, amended: for every horizon altitude at which the semi-diurnal arc is a
  number other than \<open>0\<close>, a transit query returns the finite time
  \<open>time + \<theta> / 2\<pi> / kSiderealPerSolarDays\<close>, where \<open>\<theta>\<close> is the right ascension
  minus the local sidereal time at \<open>time\<close>, reduced to \<open>(-\<pi>, \<pi>]\<close>. The result is
  the same for all such altitudes; turning the sidereal clock on from \<open>time\<close> at
  \<open>2\<pi> kSiderealPerSolarDays\<close> per day brings the sidereal time to the right
  ascension up to whole turns (hour angle exactly \<open>0\<close>); and the result is within
  half a sidereal day of \<open>time\<close>.
\<close>

theorem riseTransitSet_transit:
  assumes "semiDiurnalArc lat dec alt = Fin h" and "h \<noteq> 0"
    and "semiDiurnalArc lat dec alt' = Fin h'" and "h' \<noteq> 0"
  shows "riseTransitSet gst ksid time ra dec 0 lon lat alt
           = Fin (time + modPi (ra - gst time lon) / kTwoPi / ksid)
         \<and> riseTransitSet gst ksid time ra dec 0 lon lat alt'
           = riseTransitSet gst ksid time ra dec 0 lon lat alt
         \<and> (ksid \<noteq> 0 \<longrightarrow>
             (\<exists>n::int. gst time lon + kTwoPi * ksid * (modPi (ra - gst time lon) / kTwoPi / ksid)
                        = ra + kTwoPi * of_int n))
         \<and> (0 < ksid \<longrightarrow> \<bar>modPi (ra - gst time lon) / kTwoPi / ksid\<bar> \<le> 1 / (2 * ksid))"
proof -
  let ?th = "modPi (ra - gst time lon)"
  have a: "riseTransitSet gst ksid time ra dec 0 lon lat alt = Fin (time + ?th / kTwoPi / ksid)"
    using assms(1,2) by (simp add: riseTransitSet_def)
  have b: "riseTransitSet gst ksid time ra dec 0 lon lat alt' = Fin (time + ?th / kTwoPi / ksid)"
    using assms(3,4) by (simp add: riseTransitSet_def)
  have c: "\<exists>n::int. gst time lon + kTwoPi * ksid * (?th / kTwoPi / ksid) = ra + kTwoPi * of_int n"
    if k: "ksid \<noteq> 0"
  proof -
    obtain m :: int where m: "?th = ra - gst time lon - kTwoPi * of_int m"
      using modPi_turns by blast
    have "kTwoPi * ksid * (?th / kTwoPi / ksid) = ?th"
      using k by (simp add: kTwoPi_def)
    then have "gst time lon + kTwoPi * ksid * (?th / kTwoPi / ksid) = ra + kTwoPi * of_int (- m)"
      using m by simp
    then show ?thesis by blast
  qed
  have d: "\<bar>?th / kTwoPi / ksid\<bar> \<le> 1 / (2 * ksid)" if k: "0 < ksid"
  proof -
    have "\<bar>?th\<bar> \<le> pi"
      using modPi_range [of "ra - gst time lon"] by linarith
    then have "\<bar>?th\<bar> / (2 * pi) \<le> 1 / 2"
      by (simp add: field_simps)
    then have "\<bar>?th\<bar> / (2 * pi) / ksid \<le> 1 / 2 / ksid"
      using k by (simp only: divide_le_cancel) simp
    then show ?thesis
      using k by (simp add: kTwoPi_def abs_mult field_simps)
  qed
  show ?thesis
    using a b c d by simp
qed

theorem riseTransitSet_transit_witness:
  "riseTransitSet testSiderealTime testRate 0 0 0 0 0 0 0 = Fin 0
   \<and> riseTransitSet testSiderealTime testRate 0 0 0 0 0 0 (pi / 6)
     = riseTransitSet testSiderealTime testRate 0 0 0 0 0 0 0"
  using riseTransitSet_transit [OF arc_equator_horizon _ arc_equator_30 arccos_half_nonzero,
      of testSiderealTime testRate 0 0 0]
  by (simp add: testSiderealTime_def modPi_id)




text \<open>
  C5. After a call of the pass-circumstances function, and after a call of
  \<open>findSatellitePasses\<close>, the observer context is what it was before the call
  (its time in particular) and the object's ephemeris state is the one computed
  for that restored context; so a second call of the pass-circumstances function
  with the same arguments, on what the first call left behind, returns the same
  pass and leaves the same state.
\<close>

theorem context_restored:
  "(case riseTransitSetPass W today coords obj alt of
      (pass, coords', obj') \<Rightarrow>
        ctime coords' = ctime coords \<and> coords' = coords \<and> obj' = computeEphemeris W coords'
        \<and> riseTransitSetPass W today coords' obj' alt = (pass, coords', obj'))
   \<and> (case findSatellitePasses W coords obj start stop minAlt passes of
        (n, passes', coords', obj') \<Rightarrow>
          ctime coords' = ctime coords \<and> coords' = coords \<and> obj' = computeEphemeris W coords')"
proof -
  obtain pass where p: "riseTransitSetPass W today coords obj alt
                        = (pass, coords, computeEphemeris W coords)"
    and q: "\<And>c ob. cloc c = cloc coords \<Longrightarrow> fst (riseTransitSetPass W today c ob alt) = pass"
    using riseTransitSetPass_value [where W = W and today = today and coords = coords
        and obj = obj and alt = alt] by blast
  obtain pass2 where p2: "riseTransitSetPass W today coords (computeEphemeris W coords) alt
                        = (pass2, coords, computeEphemeris W coords)"
    using riseTransitSetPass_value [where W = W and today = today and coords = coords
        and obj = "computeEphemeris W coords" and alt = alt] by blast
  have "pass2 = pass"
    using q [of coords "computeEphemeris W coords"] p2 by simp
  then have a: "riseTransitSetPass W today coords (computeEphemeris W coords) alt
                = (pass, coords, computeEphemeris W coords)"
    using p2 by simp
  obtain c1 o1 ps where s: "sweep W start stop minAlt start coords obj (zeroPass, 0, passes) 0
                            = (c1, o1, ps)"
    by (cases "sweep W start stop minAlt start coords obj (zeroPass, 0, passes) 0") auto
  have "setTime (ctime coords) c1 = coords"
    using sweep_frame [OF s] by (rule setTime_same)
  then have b: "findSatellitePasses W coords obj start stop minAlt passes
                = (int (length ps), ps, coords, computeEphemeris W coords)"
    unfolding findSatellitePasses_def Let_def s by simp
  show ?thesis
    unfolding p b using a by simp
qed

text \<open>
  C9. \<open>riseTransitSetSearch\<close> is total, and from the counter \<open>0\<close> its loop runs
  at least once and at most 10 times. In any state of the loop, with \<open>time1\<close> the
  estimate the body computes: the loop stops there and returns \<open>time1\<close> if it is
  not further than the precision from the last estimate, or is infinite, or this
  was the tenth pass (no error is raised); an estimate closer than one second
  (\<open>1/86400\<close> day) is not further than the precision; and otherwise the loop goes
  on from \<open>time1\<close>.
\<close>

theorem riseTransitSetSearch_iterations:
  assumes "coords1 = setTime time coords"
    and "obj1 = computeEphemeris W coords1"
    and "time1 = riseTransitSetObj W time coords1 obj1 sign alt"
  shows "(case searchLoop W sign alt time coords obj 0 of
            (t, c, ob, n) \<Rightarrow>
              riseTransitSetSearch W time coords obj sign alt = (t, c, ob) \<and> 1 \<le> n \<and> n \<le> 10)
         \<and> (\<forall>i. \<not> farFrom time1 time \<or> isinf time1 \<or> 10 \<le> i + 1 \<longrightarrow>
               searchLoop W sign alt time coords obj i = (time1, coords1, obj1, i + 1))
         \<and> (\<forall>t. \<bar>t - time\<bar> < 1 / 86400 \<longrightarrow> \<not> farFrom (Fin t) time)
         \<and> (\<forall>i t. time1 = Fin t \<and> 1 / 86400 < \<bar>t - time\<bar> \<and> i + 1 < 10 \<longrightarrow>
               searchLoop W sign alt time coords obj i
               = searchLoop W sign alt t coords1 obj1 (i + 1))"
proof -
  have a: "case searchLoop W sign alt time coords obj 0 of
            (t, c, ob, n) \<Rightarrow>
              riseTransitSetSearch W time coords obj sign alt = (t, c, ob) \<and> 1 \<le> n \<and> n \<le> 10"
    using searchLoop_inv [where W = W and sign = sign and alt = alt and time = time
        and coords = coords and obj = obj and i = 0]
    by (auto simp: riseTransitSetSearch_def imax_def split: prod.splits)
  have b: "searchLoop W sign alt time coords obj i = (time1, coords1, obj1, i + 1)"
    if "\<not> farFrom time1 time \<or> isinf time1 \<or> 10 \<le> i + 1" for i
    unfolding assms
    by (rule searchLoop_stop) (use that in \<open>auto simp: assms imax_def\<close>)
  have c: "\<not> farFrom (Fin t) time" if "\<bar>t - time\<bar> < 1 / 86400" for t
    using that by (simp add: precision_def kSecondsPerDay_def)
  have d: "searchLoop W sign alt time coords obj i = searchLoop W sign alt t coords1 obj1 (i + 1)"
    if "time1 = Fin t \<and> 1 / 86400 < \<bar>t - time\<bar> \<and> i + 1 < 10" for i t
    unfolding assms
    by (rule searchLoop_continue)
       (use that in \<open>auto simp: assms imax_def precision_def kSecondsPerDay_def\<close>)
  show ?thesis
    using a b c d by blast
qed

theorem riseTransitSetSearch_iterations_witness:
  "riseTransitSetSearch (testWorld steppingObject levelAltitude) (1 / 2) testCoords 0 0 0
     = (Fin 1, setTime 1 testCoords, 1)
   \<and> searchLoop (testWorld steppingObject levelAltitude) 0 0 (1 / 2) testCoords 0 0
     = searchLoop (testWorld steppingObject levelAltitude) 0 0 (3 / 4)
         (setTime (1 / 2) testCoords) (1 / 2) 1
   \<and> searchLoop (testWorld steppingObject levelAltitude) 0 0 1 testCoords 0 2
     = (Fin 1, setTime 1 testCoords, 1, 3)
   \<and> searchLoop (testWorld steppingObject levelAltitude) 0 0 (1 / 2) testCoords 0 9
     = (Fin (3 / 4), setTime (1 / 2) testCoords, 1 / 2, 10)"
proof -
  let ?W = "testWorld steppingObject levelAltitude"
  have h1: "setTime (1 / 2) testCoords = setTime (1 / 2) testCoords"
    by simp
  have h2: "1 / 2 = computeEphemeris ?W (setTime (1 / 2) testCoords)"
    by (simp add: testWorld_ephemeris)
  have h3: "Fin (3 / 4) = riseTransitSetObj ?W (1 / 2) (setTime (1 / 2) testCoords) (1 / 2) 0 0"
    by (simp add: stepping_1)
  have g2: "1 = computeEphemeris ?W (setTime 1 testCoords)"
    by (simp add: testWorld_ephemeris)
  have g3: "Fin 1 = riseTransitSetObj ?W 1 (setTime 1 testCoords) 1 0 0"
    by (simp add: stepping_3)
  note A = riseTransitSetSearch_iterations [OF h1 h2 h3, where obj = 0]
  note B = riseTransitSetSearch_iterations [OF refl g2 g3, where obj = 0]
  have 1: "riseTransitSetSearch ?W (1 / 2) testCoords 0 0 0 = (Fin 1, setTime 1 testCoords, 1)"
    using A unfolding stepping_search by simp
  have 2: "searchLoop ?W 0 0 (1 / 2) testCoords 0 0
           = searchLoop ?W 0 0 (3 / 4) (setTime (1 / 2) testCoords) (1 / 2) (0 + 1)"
    using A by simp
  have 3: "searchLoop ?W 0 0 1 testCoords 0 2 = (Fin 1, setTime 1 testCoords, 1, 2 + 1)"
    using B by (simp add: precision_def kSecondsPerDay_def)
  have 4: "searchLoop ?W 0 0 (1 / 2) testCoords 0 9
           = (Fin (3 / 4), setTime (1 / 2) testCoords, 1 / 2, 9 + 1)"
    using A by simp
  show ?thesis
    using 1 2 3 4 by simp
qed

text \<open>
  C8, as stated: every emitted pass has \<open>rising.time < transit.time <
  setting.time\<close>, a recorded transit altitude of at least \<open>minAlt\<close>, and
  recorded rising and setting altitudes of at most \<open>minAlt\<close>. Four sweeps, each
  emitting one pass: a pass above the threshold \<open>1/5\<close> at one sample only has its
  rising and its transit at that same sample, with a rising altitude above the
  threshold; a pass already under way at \<open>start\<close> has its transit at its setting
  sample, below the threshold; after a pass that came down through a sample
  exactly at the threshold, and so was neither emitted nor cleared, the next
  pass keeps that pass's transit, earlier than its own rising; and a pass over
  the threshold \<open>-1/5\<close> that stays below altitude \<open>0\<close> has the transit event
  the sweep started with.
\<close>

theorem findSatellitePasses_counterexample:
  "fst (snd (findSatellitePasses (testWorld fixedStar grazingPass) testCoords 0 0 (2 / 86400) (1 / 5) []))
   = [grazingRecord]
   \<and> evtime (rising grazingRecord) = evtime (transit grazingRecord)
   \<and> 1 / 5 < evalt (rising grazingRecord)
   \<and> fst (snd (findSatellitePasses (testWorld fixedStar underwayPass) testCoords 0 0 (1 / 86400) (1 / 5) []))
     = [underwayRecord]
   \<and> evtime (transit underwayRecord) = evtime (setting underwayRecord)
   \<and> evalt (transit underwayRecord) < 1 / 5
   \<and> fst (snd (findSatellitePasses (testWorld fixedStar touchingPass) testCoords 0 0 (5 / 86400) (1 / 5) []))
     = [touchingRecord]
   \<and> evtime (transit touchingRecord) = Fin (1 / 86400)
   \<and> evtime (rising touchingRecord) = Fin (4 / 86400)
   \<and> fst (snd (findSatellitePasses (testWorld fixedStar lowGrazing) testCoords 0 0 (2 / 86400) (- (1 / 5)) []))
     = [lowRecord]
   \<and> evtime (transit lowRecord) = Fin 0
   \<and> evtime (rising lowRecord) = Fin (1 / 86400)"
  unfolding grazing_passes underway_passes touching_passes low_passes
  by (simp add: grazingRecord_def underwayRecord_def touchingRecord_def lowRecord_def
      zeroEvent_def)

text \<open>
  C8, amended: when the satellite is below \<open>minAlt\<close> at \<open>start\<close> and no sampled
  altitude is exactly \<open>minAlt\<close>, every pass emitted by \<open>findSatellitePasses\<close>
  into an empty vector has its rising and setting events at samples with
  \<open>start < rising.time < setting.time \<le> stop\<close>, records the altitudes of those
  samples, and has the altitude at \<open>setting.time\<close> and of the sample before
  \<open>rising.time\<close> below \<open>minAlt\<close> and the altitude at \<open>rising.time\<close> above it.
  Unless every sample of the pass is at or below altitude \<open>0\<close>, its transit event
  is at one of its samples too, with \<open>rising.time \<le> transit.time <
  setting.time\<close> and the recorded altitude at \<open>transit.time\<close> at least the
  altitude at \<open>rising.time\<close>; that is so for every pass when \<open>minAlt \<ge> 0\<close>, and
  for any pass whose recorded rising altitude is positive.
\<close>

theorem findSatellitePasses_passes:
  assumes "altitudeAt W coords start < minAlt"
    and "\<forall>n. sampleTime (altitudeAt W coords) start n \<le> stop
           \<longrightarrow> altitudeAt W coords (sampleTime (altitudeAt W coords) start n) \<noteq> minAlt"
  shows "\<forall>p \<in> set (fst (snd (findSatellitePasses W coords obj start stop minAlt []))).
           (goodPass (altitudeAt W coords) start stop minAlt p
            \<or> lowPass (altitudeAt W coords) start stop minAlt p)
           \<and> (0 \<le> minAlt \<or> 0 < evalt (rising p) \<longrightarrow>
                goodPass (altitudeAt W coords) start stop minAlt p)"
proof -
  let ?A = "altitudeAt W coords"
  have main: "\<forall>p \<in> set (fst (snd (findSatellitePasses W coords obj start stop minAlt []))).
           goodPass ?A start stop minAlt p \<or> lowPass ?A start stop minAlt p"
  proof (cases "start \<le> stop")
    case False
    then show ?thesis
      unfolding findSatellitePasses_sweep by (simp add: sweep_stop)
  next
    case True
    have i: "sweepInv ?A start stop minAlt (Suc 0) (zeroPass, 0, []) (?A start)"
      using assms(1) by (simp add: sweepInv_def)
    have "\<forall>p \<in> set (snd (snd (sweep W start stop minAlt (start + sweepStep (?A start))
              (setTime start coords) (computeEphemeris W (setTime start coords))
              (zeroPass, 0, []) (?A start)))).
            goodPass ?A start stop minAlt p \<or> lowPass ?A start stop minAlt p"
      using assms(2) _ _ i
    proof (rule sweep_inv)
      show "start + sweepStep (?A start) = sampleTime ?A start (Suc 0)"
        by simp
      show "cloc (setTime start coords) = cloc coords"
        by (rule cloc_setTime)
    qed
    then show ?thesis
      unfolding findSatellitePasses_sweep sweep_step [OF True] by simp
  qed
  show ?thesis
  proof
    fix p
    assume "p \<in> set (fst (snd (findSatellitePasses W coords obj start stop minAlt [])))"
    then have d: "goodPass ?A start stop minAlt p \<or> lowPass ?A start stop minAlt p"
      using main by blast
    have "goodPass ?A start stop minAlt p" if "0 \<le> minAlt \<or> 0 < evalt (rising p)"
      using d that lowPass_negative [of ?A start stop minAlt p] by fastforce
    then show "(goodPass ?A start stop minAlt p \<or> lowPass ?A start stop minAlt p)
           \<and> (0 \<le> minAlt \<or> 0 < evalt (rising p) \<longrightarrow> goodPass ?A start stop minAlt p)"
      using d by blast
  qed
qed

theorem findSatellitePasses_passes_witness:
  "goodPass tentPass 0 (5 / 86400) (3 / 20) tentRecord"
proof -
  have a: "altitudeAt (testWorld fixedStar tentPass) testCoords = tentPass"
    by (rule ext) (rule testWorld_altitude)
  have h1: "altitudeAt (testWorld fixedStar tentPass) testCoords 0 < 3 / 20"
    by (simp add: testWorld_altitude tentPass_def)
  have h2: "\<forall>n. sampleTime (altitudeAt (testWorld fixedStar tentPass) testCoords) 0 n \<le> 5 / 86400
              \<longrightarrow> altitudeAt (testWorld fixedStar tentPass) testCoords
                    (sampleTime (altitudeAt (testWorld fixedStar tentPass) testCoords) 0 n)
                  \<noteq> 3 / 20"
    unfolding a tent_samples using tent_off_threshold by simp
  show ?thesis
    using findSatellitePasses_passes [OF h1 h2, where obj = 0]
    unfolding a tent_passes by simp
qed




end
